theory Spec2Isabelle
  imports Main "HOL-Library.Char_ord" "HOL-Library.List_Lexorder"
begin

section \<open>MolPic: a shallow embedding of the orchestration code\<close>

text \<open>
  MolPic renders molecules from SMILES strings or compound names. The chemistry toolkit
  (RDKit), the compound database client (pubchempy) and the file system are outside the
  repository; they appear here as parameters (records of functions) and as an explicit
  file-system state. Everything else is translated from \<^verbatim>\<open>src/molpic/core.py\<close>,
  \<^verbatim>\<open>src/molpic/resolve.py\<close>, \<^verbatim>\<open>src/molpic/cli.py\<close> and
  \<^verbatim>\<open>app_streamlit.py\<close>.

  Python strings are modelled as \<^typ>\<open>string\<close>; a \<^typ>\<open>char\<close> stands for a code point
  below 256. An exception is modelled by its message, a \<^typ>\<open>string\<close>, on the left of
  a sum.
\<close>

subsection \<open>Python string primitives\<close>

text \<open>\<^verbatim>\<open>str.isspace\<close> on one character (also the class \<^verbatim>\<open>\s\<close> of \<^verbatim>\<open>re\<close>): the code
  points 9 to 13, 28 to 32, 133 and 160.\<close>

definition is_space :: "char \<Rightarrow> bool" where
  "is_space c =
     (let n = (of_char c :: nat)
      in (9 \<le> n \<and> n \<le> 13) \<or> (28 \<le> n \<and> n \<le> 32) \<or> n = 133 \<or> n = 160)"

text \<open>\<^verbatim>\<open>s.strip()\<close>\<close>

definition strip :: "string \<Rightarrow> string" where
  "strip s = rev (dropWhile is_space (rev (dropWhile is_space s)))"

text \<open>\<^verbatim>\<open>s.lower()\<close>: the code points 65 to 90, and 192 to 222 without 215, move up
  by 32; no code point outside the ASCII letters is mapped to an ASCII letter.\<close>

definition lower_char :: "char \<Rightarrow> char" where
  "lower_char c =
     (let n = (of_char c :: nat)
      in if (65 \<le> n \<and> n \<le> 90) \<or> (192 \<le> n \<and> n \<le> 222 \<and> n \<noteq> 215)
         then char_of (n + 32) else c)"

definition lower :: "string \<Rightarrow> string" where
  "lower s = map lower_char s"

text \<open>\<^verbatim>\<open>s.startswith(p)\<close>\<close>

definition startswith :: "string \<Rightarrow> string \<Rightarrow> bool" where
  "startswith s p = (take (length p) s = p)"

text \<open>\<^verbatim>\<open>s.find(p)\<close>: the least index at which \<open>p\<close> occurs, or -1.\<close>

fun find_from :: "nat \<Rightarrow> string \<Rightarrow> string \<Rightarrow> int" where
  "find_from i [] p = (if p = [] then int i else -1)"
| "find_from i (c # cs) p =
     (if startswith (c # cs) p then int i else find_from (Suc i) cs p)"

definition str_find :: "string \<Rightarrow> string \<Rightarrow> int" where
  "str_find s p = find_from 0 s p"

text \<open>\<^verbatim>\<open>s.replace(a, b)\<close> for a one-character \<open>a\<close>.\<close>

definition replace_char :: "char \<Rightarrow> string \<Rightarrow> string \<Rightarrow> string" where
  "replace_char a b s = concat (map (\<lambda>c. if c = a then b else [c]) s)"

text \<open>\<^verbatim>\<open>str(n)\<close> for an integer, and \<^verbatim>\<open>int(ds)\<close> for a string of decimal digits.\<close>

definition digit_chars :: string where
  "digit_chars = ''0123456789''"

fun str_nat :: "nat \<Rightarrow> string" where
  "str_nat n =
     (if n < 10 then [digit_chars ! n]
      else str_nat (n div 10) @ [digit_chars ! (n mod 10)])"

declare str_nat.simps [simp del]

definition str_int :: "int \<Rightarrow> string" where
  "str_int i = (if i < 0 then CHR ''-'' # str_nat (nat (- i)) else str_nat (nat i))"

definition is_digit :: "char \<Rightarrow> bool" where
  "is_digit c = (c \<in> set digit_chars)"

definition digit_val :: "char \<Rightarrow> nat" where
  "digit_val c = of_char c - 48"

definition nat_of_digits :: "string \<Rightarrow> nat" where
  "nat_of_digits ds = foldl (\<lambda>acc c. 10 * acc + digit_val c) 0 ds"

text \<open>The format specification \<^verbatim>\<open>{n:0Kd}\<close> for a non-negative \<open>n\<close>: at least \<open>K\<close>
  digits, padded with zeros on the left, never truncated.\<close>

definition zfill :: "nat \<Rightarrow> nat \<Rightarrow> string" where
  "zfill k n = replicate (k - length (str_nat n)) (CHR ''0'') @ str_nat n"

subsection \<open>The classifier\<close>

text \<open>\<^verbatim>\<open>cli.py\<close>:
  \<^verbatim>\<open>smiles_chars = set("#=()[]@+\\/-0123456789"); return any(c in smiles_chars for c in text)\<close>\<close>

definition smiles_chars :: string where
  "smiles_chars = ''#=()[]@+'' @ [CHR 0x5C] @ ''/-0123456789''"

definition is_probably_smiles :: "string \<Rightarrow> bool" where
  "is_probably_smiles text = list_ex (\<lambda>c. c \<in> set smiles_chars) text"

text \<open>\<^verbatim>\<open>app_streamlit.py\<close>: \<^verbatim>\<open>is_smiles = any(c in q for c in "#=()[]@+\\/-0123456789")\<close>\<close>

definition is_smiles :: "string \<Rightarrow> bool" where
  "is_smiles q = list_ex (\<lambda>c. c \<in> set q) smiles_chars"

subsection \<open>Paths and the file system\<close>

text \<open>\<^verbatim>\<open>s.split(sep)\<close> for a one-character separator.\<close>

fun split_char :: "char \<Rightarrow> string \<Rightarrow> string list" where
  "split_char sep [] = [[]]"
| "split_char sep (c # cs) =
     (if c = sep then [] # split_char sep cs
      else (case split_char sep cs of
              w # ws \<Rightarrow> (c # w) # ws
            | [] \<Rightarrow> [[c]]))"

text \<open>\<^verbatim>\<open>sep.join(xs)\<close>\<close>

fun join :: "string \<Rightarrow> string list \<Rightarrow> string" where
  "join sep [] = []"
| "join sep [x] = x"
| "join sep (x # y # ys) = x @ sep @ join sep (y # ys)"

text \<open>
  A \<^verbatim>\<open>pathlib.Path\<close> on a POSIX system: the root (empty, one slash or two slashes) and
  the components after it. Parsing drops empty components and single dots.
\<close>

record path =
  root :: string
  tail :: "string list"

definition Path :: "string \<Rightarrow> path" where
  "Path s =
     (let r = (if \<not> startswith s ''/'' then []
               else if startswith s ''//'' \<and> \<not> startswith s ''///'' then ''//''
               else ''/'')
      in \<lparr>root = r,
          tail = filter (\<lambda>x. x \<noteq> [] \<and> x \<noteq> ''.'') (split_char (CHR ''/'') (drop (length r) s))\<rparr>)"

text \<open>\<^verbatim>\<open>str(p)\<close>\<close>

definition path_str :: "path \<Rightarrow> string" where
  "path_str p =
     (if root p = [] \<and> tail p = [] then ''.'' else root p @ join ''/'' (tail p))"

text \<open>\<^verbatim>\<open>p.name\<close>\<close>

definition path_name :: "path \<Rightarrow> string" where
  "path_name p = (if tail p = [] then [] else last (tail p))"

text \<open>\<^verbatim>\<open>p.parent\<close>\<close>

definition parent :: "path \<Rightarrow> path" where
  "parent p = (if tail p = [] then p else p\<lparr>tail := butlast (tail p)\<rparr>)"

text \<open>\<^verbatim>\<open>p / seg\<close>: an absolute segment replaces the path.\<close>

definition path_join :: "path \<Rightarrow> string \<Rightarrow> path" where
  "path_join p seg =
     (let q = Path seg in if root q \<noteq> [] then q else p\<lparr>tail := tail p @ tail q\<rparr>)"

text \<open>\<^verbatim>\<open>name.rfind('.')\<close>: the greatest index of the character, or -1.\<close>

definition rfind_char :: "string \<Rightarrow> char \<Rightarrow> int" where
  "rfind_char s c =
     (let k = length (takeWhile (\<lambda>x. x \<noteq> c) (rev s))
      in if k = length s then -1 else int (length s - 1 - k))"

text \<open>\<^verbatim>\<open>p.suffix\<close>, as \<^verbatim>\<open>pathlib\<close> computes it up to Python 3.13:
  \<^verbatim>\<open>i = name.rfind('.'); return name[i:] if 0 < i < len(name) - 1 else ''\<close>\<close>

definition suffix :: "path \<Rightarrow> string" where
  "suffix p =
     (let name = path_name p; i = rfind_char name (CHR ''.'')
      in if 0 < i \<and> i < int (length name) - 1 then drop (nat i) name else [])"

text \<open>The strings of the directories that \<^verbatim>\<open>mkdir\<close> goes through for a path, from the
  first component down to the path itself.\<close>

definition path_ancestors :: "path \<Rightarrow> string list" where
  "path_ancestors p =
     map (\<lambda>k. path_str (p\<lparr>tail := take k (tail p)\<rparr>)) [1..<Suc (length (tail p))]"

text \<open>
  One entry of the batch report is a Python dict, kept as an association list in the
  order of the keys; its values are integers, booleans, strings or \<^verbatim>\<open>None\<close>.
\<close>

datatype cell = CInt int | CBool bool | CStr string | CNone

type_synonym report_entry = "(string \<times> cell) list"

text \<open>
  The file system: the directories, and the regular files with their contents. Paths are
  compared as strings: \<^verbatim>\<open>..\<close> and symbolic links are not resolved, so the facts below
  about several files are stated for files of one directory. A file written by
  \<^verbatim>\<open>to_csv\<close> is kept as the table it serialises, the column names and the rows.
\<close>

datatype file_content = Text string | Bytes string | Table "string list" "cell list list"

record filesystem =
  dirs :: "string set"
  files :: "string \<rightharpoonup> file_content"

text \<open>
  \<^verbatim>\<open>p.mkdir(parents=True, exist_ok=True)\<close>. It raises \<^verbatim>\<open>NotADirectoryError\<close> when a
  directory above the path is a regular file, and \<^verbatim>\<open>FileExistsError\<close> when the path
  itself is one; otherwise the path and the directories above it exist afterwards.
\<close>

definition mkdir_parents :: "filesystem \<Rightarrow> path \<Rightarrow> string + filesystem" where
  "mkdir_parents fs p =
     (if tail p \<noteq> [] \<and> list_ex (\<lambda>q. files fs q \<noteq> None) (path_ancestors (parent p))
      then Inl ''NotADirectoryError''
      else if tail p \<noteq> [] \<and> files fs (path_str p) \<noteq> None then Inl ''FileExistsError''
      else Inr (fs\<lparr>dirs := dirs fs \<union> set (path_ancestors p)\<rparr>))"

text \<open>Writing a file, as \<^verbatim>\<open>write_text\<close>, \<^verbatim>\<open>img.save\<close> and \<^verbatim>\<open>to_csv\<close> do once the
  directory of the file exists: it raises \<^verbatim>\<open>IsADirectoryError\<close> when the path is a
  directory.\<close>

definition write_file :: "filesystem \<Rightarrow> string \<Rightarrow> file_content \<Rightarrow> string + filesystem" where
  "write_file fs p data =
     (if p \<in> dirs fs then Inl ''IsADirectoryError''
      else Inr (fs\<lparr>files := (files fs)(p \<mapsto> data)\<rparr>))"

subsection \<open>The toolkit\<close>

text \<open>
  The calls into RDKit and PIL that the renderer makes. A molecule is a value of type
  \<open>'mol\<close>, a raster image one of type \<open>'img\<close>. A call that the source guards with
  \<^verbatim>\<open>try\<close> returns a sum, the exception's message on the left.
  \<^item> \<open>MolToSVG\<close> stands for the sequence \<^verbatim>\<open>MolDraw2DSVG(w, h)\<close>, setting the draw
    options, \<^verbatim>\<open>DrawMolecule\<close>, \<^verbatim>\<open>FinishDrawing\<close>, \<^verbatim>\<open>GetDrawingText\<close>;
  \<^item> \<open>MolsToGridImage\<close> and \<open>MolsToGridSVG\<close> are \<^verbatim>\<open>Draw.MolsToGridImage\<close> with
    \<^verbatim>\<open>useSVG=False\<close> and \<^verbatim>\<open>useSVG=True\<close>, taking the molecules, \<^verbatim>\<open>molsPerRow\<close>,
    \<^verbatim>\<open>subImgSize\<close> and the legends;
  \<^item> \<open>img_encode\<close> is the encoding that \<^verbatim>\<open>img.save(path, dpi=(d, d))\<close> does, or
    \<^verbatim>\<open>img.save(path)\<close> when the resolution is \<open>None\<close>: it raises, or gives the bytes
    that are then written to the file.
\<close>

record draw_options =
  clearBackground :: bool
  baseFontSize :: nat
  bondLineWidth :: nat
  addStereoAnnotation :: bool
  padding_percent :: nat

record ('mol, 'img) toolkit =
  MolFromSmiles :: "string \<Rightarrow> 'mol option"
  Compute2DCoords :: "'mol \<Rightarrow> 'mol"
  RemoveHs :: "'mol \<Rightarrow> string + 'mol"
  MolToImage :: "'mol \<Rightarrow> int \<times> int \<Rightarrow> string \<Rightarrow> string + 'img"
  MolToSVG :: "'mol \<Rightarrow> int \<times> int \<Rightarrow> draw_options \<Rightarrow> string \<Rightarrow> string + string"
  MolsToGridImage :: "'mol option list \<Rightarrow> int \<Rightarrow> int \<times> int \<Rightarrow> string list \<Rightarrow> string + 'img"
  MolsToGridSVG :: "'mol option list \<Rightarrow> int \<Rightarrow> int \<times> int \<Rightarrow> string list \<Rightarrow> string + string"
  img_encode :: "'img \<Rightarrow> int option \<Rightarrow> string + string"

text \<open>
  The two floating-point values that the title banner prints. \<^verbatim>\<open>{w/2}\<close>: below
  \<open>2 ^ 53\<close> the quotient is exact and Python prints it with one decimal, \<^verbatim>\<open>750.0\<close> or
  \<^verbatim>\<open>750.5\<close>; from there on it is rounded, printed with an exponent, or the division
  raises \<^verbatim>\<open>OverflowError\<close>, and the result is a parameter. \<^verbatim>\<open>{extra_top_px*0.65}\<close>:
  Python prints \<^verbatim>\<open>45.5\<close> for the margin of 70, the one that the code passes; for
  another margin the result is a parameter.
\<close>

record float_format =
  half_of_large :: "int \<Rightarrow> string + string"
  times_065_of_other :: "int \<Rightarrow> string + string"

definition format_half :: "float_format \<Rightarrow> int \<Rightarrow> string + string" where
  "format_half ff w =
     (if 0 \<le> w \<and> w < 2 ^ 53
      then Inr (str_int (w div 2) @ (if even w then ''.0'' else ''.5''))
      else half_of_large ff w)"

definition format_times_065 :: "float_format \<Rightarrow> int \<Rightarrow> string + string" where
  "format_times_065 ff n = (if n = 70 then Inr ''45.5'' else times_065_of_other ff n)"

subsection \<open>The renderer of one molecule\<close>

datatype RenderResult =
  RenderResult (rr_smiles: "string option") (rr_out_path: "string option") (rr_ok: bool)
    (rr_message: string)

text \<open>\<^verbatim>\<open>_mol_from_smiles\<close>\<close>

definition mol_from_smiles :: "('mol, 'img) toolkit \<Rightarrow> string \<Rightarrow> bool \<Rightarrow> 'mol option" where
  "mol_from_smiles tk smiles no_h =
     (case MolFromSmiles tk smiles of
        None \<Rightarrow> None
      | Some mol0 \<Rightarrow>
          (let mol = Compute2DCoords tk mol0
           in if no_h
              then (case RemoveHs tk mol of Inr mol' \<Rightarrow> Some mol' | Inl e \<Rightarrow> Some mol)
              else Some mol))"

text \<open>\<^verbatim>\<open>img.save(path, dpi=...)\<close> or \<^verbatim>\<open>img.save(path)\<close>: the image is encoded and
  written.\<close>

definition img_save ::
  "('mol, 'img) toolkit \<Rightarrow> filesystem \<Rightarrow> 'img \<Rightarrow> string \<Rightarrow> int option \<Rightarrow> string + filesystem" where
  "img_save tk fs img p dpi =
     (case img_encode tk img dpi of
        Inl e \<Rightarrow> Inl e
      | Inr data \<Rightarrow> write_file fs p (Bytes data))"

text \<open>The nested \<^verbatim>\<open>try\<close> of both renderers: save with the resolution, and on any
  exception save without it.\<close>

definition save_image ::
  "('mol, 'img) toolkit \<Rightarrow> filesystem \<Rightarrow> 'img \<Rightarrow> string \<Rightarrow> int \<Rightarrow> string + filesystem" where
  "save_image tk fs img p png_dpi =
     (case img_save tk fs img p (Some png_dpi) of
        Inr fs' \<Rightarrow> Inr fs'
      | Inl e \<Rightarrow> img_save tk fs img p None)"

text \<open>\<^verbatim>\<open>render_molecule\<close>. The result is on the right of a sum; on the left is the
  exception of \<^verbatim>\<open>mkdir\<close>, which is called outside the \<^verbatim>\<open>try\<close> statement and leaves the
  function.\<close>

definition render_molecule ::
  "('mol, 'img) toolkit \<Rightarrow> filesystem \<Rightarrow> string \<Rightarrow> string \<Rightarrow> int \<times> int \<Rightarrow> string \<Rightarrow> bool \<Rightarrow> bool
     \<Rightarrow> int \<Rightarrow> string + RenderResult \<times> filesystem" where
  "render_molecule tk fs smiles out img_size legend transparent no_h png_dpi =
     (let s = strip smiles
      in if s = [] then Inr (RenderResult None None False ''Empty SMILES provided.'', fs)
         else
           (case mol_from_smiles tk s no_h of
              None \<Rightarrow>
                Inr (RenderResult (Some s) None False ''RDKit could not parse the SMILES.'', fs)
            | Some mol \<Rightarrow>
                (let out_path = Path out
                 in case mkdir_parents fs (parent out_path) of
                      Inl e \<Rightarrow> Inl e
                    | Inr fs1 \<Rightarrow>
                        (let sfx = lower (suffix out_path)
                         in if sfx \<notin> set [''.png'', ''.svg'']
                            then Inr (RenderResult (Some s) None False
                                        ''Output must end with .png or .svg'', fs1)
                            else
                              (case (if sfx = ''.png''
                                     then (case MolToImage tk mol img_size legend of
                                             Inl e \<Rightarrow> Inl e
                                           | Inr img \<Rightarrow>
                                               save_image tk fs1 img (path_str out_path) png_dpi)
                                     else (case MolToSVG tk mol img_size
                                                  \<lparr>clearBackground = transparent,
                                                   baseFontSize = 18, bondLineWidth = 2,
                                                   addStereoAnnotation = True,
                                                   padding_percent = 5\<rparr> legend of
                                             Inl e \<Rightarrow> Inl e
                                           | Inr svg \<Rightarrow>
                                               write_file fs1 (path_str out_path) (Text svg)))
                               of
                                 Inr fs2 \<Rightarrow>
                                   Inr (RenderResult (Some s) (Some (path_str out_path)) True
                                          ''OK'', fs2)
                               | Inl e \<Rightarrow>
                                   Inr (RenderResult (Some s) None False
                                          (''Render error: '' @ e), fs1))))))"

subsection \<open>The title banner\<close>

text \<open>
  \<^verbatim>\<open>re.search(r'KEY="(\d+)(px)?"', s)\<close>, group 1 of the leftmost match. At one position
  the pattern matches when \<^verbatim>\<open>KEY="\<close> is followed by the longest run of digits there, not
  empty, and then by a double quote or by \<^verbatim>\<open>px"\<close>; a shorter run of digits is followed by
  a digit, so backtracking finds no other match.
\<close>

definition match_dim :: "string \<Rightarrow> string \<Rightarrow> string option" where
  \<open>match_dim key s =
     (if startswith s (key @ ''="'')
      then (let r = drop (length key + 2) s;
                ds = takeWhile is_digit r;
                r' = dropWhile is_digit r
            in if ds \<noteq> [] \<and> (startswith r' ''"'' \<or> startswith r' ''px"'') then Some ds else None)
      else None)\<close>

fun search_dim :: "string \<Rightarrow> string \<Rightarrow> string option" where
  "search_dim key [] = None"
| "search_dim key (c # cs) =
     (case match_dim key (c # cs) of
        Some ds \<Rightarrow> Some ds
      | None \<Rightarrow> search_dim key cs)"

text \<open>
  What the pattern says of one position, to compare the search with: the string starts
  with \<^verbatim>\<open>KEY="\<close>, the digits \<open>ds\<close>, of which there is at least one, and a double
  quote, or the same with \<^verbatim>\<open>px\<close> before the quote.
\<close>

definition dim_at :: "string \<Rightarrow> string \<Rightarrow> string \<Rightarrow> bool" where
  \<open>dim_at key s ds =
     (ds \<noteq> [] \<and> list_all is_digit ds
      \<and> (startswith s (key @ ''="'' @ ds @ ''"'') \<or> startswith s (key @ ''="'' @ ds @ ''px"'')))\<close>

text \<open>
  \<^verbatim>\<open>re.sub(r"^\s*<\?xml[^>]*\?>\s*", "", s)\<close>. The pattern is anchored at the start, so
  it matches at most once: white space, \<^verbatim>\<open><?xml\<close>, then up to the first \<^verbatim>\<open>>\<close>, which a
  question mark after \<^verbatim>\<open><?xml\<close> must precede, then white space.
\<close>

definition sub_xml_declaration :: "string \<Rightarrow> string" where
  \<open>sub_xml_declaration s =
     (let r = dropWhile is_space s
      in if startswith r ''<?xml''
         then (let r1 = drop 5 r;
                   body = takeWhile (\<lambda>c. c \<noteq> CHR ''>'') r1;
                   r2 = dropWhile (\<lambda>c. c \<noteq> CHR ''>'') r1
               in if r2 \<noteq> [] \<and> body \<noteq> [] \<and> last body = CHR ''?''
                  then dropWhile is_space (tl r2) else s)
         else s)\<close>

text \<open>\<^verbatim>\<open>re.sub(r"^\s*<!DOCTYPE[^>]*>\s*", "", s)\<close>\<close>

definition sub_doctype :: "string \<Rightarrow> string" where
  \<open>sub_doctype s =
     (let r = dropWhile is_space s
      in if startswith r ''<!DOCTYPE''
         then (let r2 = dropWhile (\<lambda>c. c \<noteq> CHR ''>'') (drop 9 r)
               in if r2 \<noteq> [] then dropWhile is_space (tl r2) else s)
         else s)\<close>

text \<open>
  \<^verbatim>\<open>_inject_svg_title\<close>. The result is the source's f-string, line by line; on the left
  of the sum is the exception of a floating-point operation, which leaves the function.
  \<^verbatim>\<open>int(m.group(1))\<close> reads a string of digits; integers are unbounded, and the
  interpreter's limit on the number of digits of a string is left out.
\<close>

definition inject_svg_title :: "float_format \<Rightarrow> string \<Rightarrow> string \<Rightarrow> int \<Rightarrow> string + string" where
  \<open>inject_svg_title ff svg title extra_top_px =
     (if strip title = [] then Inr svg
      else if str_find svg ''<svg'' = -1 then Inr svg
      else
        (let w = (case search_dim ''width'' svg of Some ds \<Rightarrow> int (nat_of_digits ds) | None \<Rightarrow> 1500);
             h = (case search_dim ''height'' svg of Some ds \<Rightarrow> int (nat_of_digits ds) | None \<Rightarrow> 1000);
             new_h = h + extra_top_px;
             inner = sub_doctype (sub_xml_declaration svg)
         in case format_half ff w of
              Inl e \<Rightarrow> Inl e
            | Inr x \<Rightarrow>
                (case format_times_065 ff extra_top_px of
                   Inl e \<Rightarrow> Inl e
                 | Inr y \<Rightarrow>
                     Inr (''<svg xmlns="http://www.w3.org/2000/svg" width="'' @ str_int w
                            @ ''" height="'' @ str_int new_h
                            @ ''" viewBox="0 0 '' @ str_int w @ '' '' @ str_int new_h @ ''">''
                            @ [CHR 0x0A]
                          @ ''  <text x="'' @ x @ ''" y="'' @ y
                            @ ''" text-anchor="middle" font-size="28" font-family="Arial">''
                            @ title @ ''</text>'' @ [CHR 0x0A]
                          @ ''  <g transform="translate(0,'' @ str_int extra_top_px @ '')">''
                            @ [CHR 0x0A]
                          @ ''    '' @ inner @ [CHR 0x0A]
                          @ ''  </g>'' @ [CHR 0x0A]
                          @ ''</svg>'' @ [CHR 0x0A]))))\<close>

subsection \<open>The renderer of a grid\<close>

text \<open>\<^verbatim>\<open>render_grid\<close>. The argument \<open>transparent\<close> is read once, by a conditional whose
  branch is \<^verbatim>\<open>pass\<close>. The title banner is made with the default margin of 70. As in
  \<^verbatim>\<open>render_molecule\<close>, \<^verbatim>\<open>mkdir\<close> is called outside the \<^verbatim>\<open>try\<close> statement.\<close>

definition render_grid ::
  "('mol, 'img) toolkit \<Rightarrow> float_format \<Rightarrow> filesystem \<Rightarrow> string list \<Rightarrow> string
     \<Rightarrow> string list option \<Rightarrow> int \<times> int \<Rightarrow> int \<times> int \<Rightarrow> bool \<Rightarrow> bool \<Rightarrow> int \<Rightarrow> string
     \<Rightarrow> string + RenderResult \<times> filesystem" where
  "render_grid tk ff fs smiles_list out legends grid sub_img_size transparent no_h png_dpi title =
     (if smiles_list = []
      then Inr (RenderResult None None False ''No molecules provided for grid rendering.'', fs)
      else
        (let used_legends =
               (case legends of
                  None \<Rightarrow> replicate (length smiles_list) []
                | Some l \<Rightarrow> if l = [] then replicate (length smiles_list) [] else l);
             mols = map (\<lambda>s. let ss = strip s
                              in if ss = [] then None else mol_from_smiles tk ss no_h) smiles_list;
             (rows, cols) = grid;
             out_path = Path out
         in case mkdir_parents fs (parent out_path) of
              Inl e \<Rightarrow> Inl e
            | Inr fs1 \<Rightarrow>
                (let sfx = lower (suffix out_path)
                 in if sfx \<notin> set [''.png'', ''.svg'']
                    then Inr (RenderResult None None False
                                ''Grid output must end with .png or .svg'', fs1)
                    else
                      (case (if sfx = ''.png''
                             then (case MolsToGridImage tk mols cols sub_img_size used_legends of
                                     Inl e \<Rightarrow> Inl e
                                   | Inr img \<Rightarrow>
                                       save_image tk fs1 img (path_str out_path) png_dpi)
                             else (case MolsToGridSVG tk mols cols sub_img_size used_legends of
                                     Inl e \<Rightarrow> Inl e
                                   | Inr svg0 \<Rightarrow>
                                       (let svg1 = (if \<not> transparent then svg0 else svg0)
                                        in case inject_svg_title ff svg1 (strip title) 70 of
                                             Inl e \<Rightarrow> Inl e
                                           | Inr svg \<Rightarrow>
                                               write_file fs1 (path_str out_path) (Text svg))))
                       of
                         Inr fs2 \<Rightarrow>
                           Inr (RenderResult (Some ''GRID'') (Some (path_str out_path)) True
                                  ''OK'', fs2)
                       | Inl e \<Rightarrow>
                           Inr (RenderResult (Some ''GRID'') None False
                                  (''Grid render error: '' @ e), fs1)))))"

subsection \<open>The resolver\<close>

text \<open>
  A compound as \<^verbatim>\<open>pubchempy\<close> returns it: the three attributes that the resolver reads
  with \<^verbatim>\<open>getattr(c, name, None)\<close>. The lookup \<^verbatim>\<open>pcp.get_compounds(q, namespace=ns)\<close> is a
  parameter; it raises or returns a list of compounds.
\<close>

datatype compound =
  Compound (canonical_smiles: "string option") (isomeric_smiles: "string option")
    (cid_of: "int option")

type_synonym get_compounds = "string \<Rightarrow> string \<Rightarrow> string + compound list"

datatype ResolveResult =
  ResolveResult (res_query: string) (res_smiles: "string option") (res_source: string)
    (res_pubchem_cid: "int option") (res_message: string)

text \<open>\<^verbatim>\<open>not x\<close> for an optional string: \<^verbatim>\<open>None\<close> and the empty string are false.\<close>

definition falsy :: "string option \<Rightarrow> bool" where
  "falsy x = (case x of None \<Rightarrow> True | Some s \<Rightarrow> s = [])"

text \<open>The body of the \<^verbatim>\<open>try\<close> statement of \<^verbatim>\<open>resolve_name_to_smiles\<close>; an exception
  of a lookup leaves it on the left.\<close>

definition resolve_try :: "get_compounds \<Rightarrow> string \<Rightarrow> string + ResolveResult" where
  "resolve_try get_compounds q =
     (case get_compounds q ''name'' of
        Inl e \<Rightarrow> Inl e
      | Inr found \<Rightarrow>
          (case (if found = [] then get_compounds q ''query'' else Inr found) of
             Inl e \<Rightarrow> Inl e
           | Inr compounds \<Rightarrow>
               (case compounds of
                  [] \<Rightarrow> Inr (ResolveResult q None ''pubchem'' None ''No PubChem match found.'')
                | c # _ \<Rightarrow>
                    (let smiles = (if falsy (canonical_smiles c) then isomeric_smiles c
                                   else canonical_smiles c);
                         cid = cid_of c
                     in if falsy smiles
                        then Inr (ResolveResult q None ''pubchem'' cid
                                    ''Matched PubChem entry but no SMILES returned.'')
                        else Inr (ResolveResult q smiles ''pubchem'' cid ''OK'')))))"

text \<open>\<^verbatim>\<open>resolve_name_to_smiles\<close>. The result is on the right of a sum whose left would be
  an exception that leaves the function. The argument \<open>timeout_s\<close> is not read.\<close>

definition resolve_name_to_smiles ::
  "get_compounds \<Rightarrow> string \<Rightarrow> int \<Rightarrow> string + ResolveResult" where
  "resolve_name_to_smiles get_compounds name timeout_s =
     (let q = strip name
      in if q = [] then Inr (ResolveResult name None ''none'' None ''Empty name provided.'')
         else (case resolve_try get_compounds q of
                 Inr r \<Rightarrow> Inr r
               | Inl e \<Rightarrow>
                   Inr (ResolveResult q None ''pubchem'' None (''PubChem resolution error: '' @ e))))"


subsection \<open>The batch command\<close>

text \<open>
  What ends a command early: \<^verbatim>\<open>typer.Exit(code)\<close>, \<^verbatim>\<open>typer.BadParameter(msg)\<close>, the
  \<^verbatim>\<open>ValueError\<close> of \<^verbatim>\<open>int()\<close> and of \<^verbatim>\<open>range()\<close>, and any other exception that a
  called function lets through.
\<close>

datatype error = Exit int | BadParameter string | ValueError string | Raised string

text \<open>\<^verbatim>\<open>int(s)\<close> in base 10: white space around, an optional sign, then groups of digits
  separated by single underscores. The white space that \<^verbatim>\<open>int\<close> accepts is narrower than
  that of \<^verbatim>\<open>str.strip\<close>: the code points 9 to 13, 32, 133 and 160, but not 28 to 31.
  Integers are unbounded, and the interpreter's limit on the number of digits of a string
  is left out.\<close>

definition is_int_space :: "char \<Rightarrow> bool" where
  "is_int_space c =
     (let n = (of_char c :: nat)
      in (9 \<le> n \<and> n \<le> 13) \<or> n = 32 \<or> n = 133 \<or> n = 160)"

definition py_int :: "string \<Rightarrow> int option" where
  "py_int s =
     (let t = rev (dropWhile is_int_space (rev (dropWhile is_int_space s)));
          neg = startswith t ''-'';
          body = (if startswith t ''-'' \<or> startswith t ''+'' then tl t else t);
          groups = split_char (CHR ''_'') body
      in if list_all (\<lambda>g. g \<noteq> [] \<and> list_all is_digit g) groups
         then Some ((if neg then - 1 else 1) * int (nat_of_digits (concat groups)))
         else None)"

text \<open>\<^verbatim>\<open>_parse_grid\<close>\<close>

definition parse_grid :: "string \<Rightarrow> error + int \<times> int" where
  "parse_grid g =
     (let s = replace_char (CHR '' '') [] (lower g)
      in if CHR ''x'' \<notin> set s then Inl (BadParameter ''Grid must be like 2x3'')
         else
           (let a = takeWhile (\<lambda>c. c \<noteq> CHR ''x'') s;
                b = tl (dropWhile (\<lambda>c. c \<noteq> CHR ''x'') s)
            in case py_int a of
                 None \<Rightarrow> Inl (ValueError a)
               | Some r \<Rightarrow>
                   (case py_int b of
                      None \<Rightarrow> Inl (ValueError b)
                    | Some c \<Rightarrow>
                        if r \<le> 0 \<or> c \<le> 0
                        then Inl (BadParameter ''Grid rows/cols must be positive.'')
                        else Inr (r, c))))"

text \<open>\<^verbatim>\<open>_write_caption\<close>; the exceptions of \<^verbatim>\<open>mkdir\<close> and of \<^verbatim>\<open>write_text\<close> leave
  it.\<close>

definition write_caption ::
  "filesystem \<Rightarrow> string \<Rightarrow> string \<Rightarrow> string list \<Rightarrow> string + filesystem" where
  "write_caption fs file title legends =
     (let p = Path file
      in case mkdir_parents fs (parent p) of
           Inl e \<Rightarrow> Inl e
         | Inr fs1 \<Rightarrow>
             (let items = join ''; '' (map (\<lambda>(i, name). str_nat (i + 1) @ '') '' @ name)
                                        (enumerate 0 legends));
                  caption = (if strip title \<noteq> []
                             then strip title @ [CHR 0x0A] @ ''Compounds: '' @ items @ [CHR 0x0A]
                             else ''Compounds: '' @ items @ [CHR 0x0A])
              in write_file fs1 (path_str p) (Text caption)))"

text \<open>
  The table that \<^verbatim>\<open>pd.read_csv\<close> returns: its column names, and its rows in order, each
  row giving \<^verbatim>\<open>str(value)\<close> for the columns. The index of a row is its position.
\<close>

record dataframe =
  df_columns :: "string list"
  df_rows :: "(string \<times> string) list list"

text \<open>\<^verbatim>\<open>str(row.get(col, ""))\<close>\<close>

definition row_get :: "(string \<times> string) list \<Rightarrow> string \<Rightarrow> string" where
  "row_get row col = (case map_of row col of Some v \<Rightarrow> v | None \<Rightarrow> [])"

text \<open>The two dicts that the loop appends to \<^verbatim>\<open>report_rows\<close>: the one of a row that is
  empty or whose name is not resolved, and the one of a row that reaches the renderer.\<close>

definition short_entry :: "nat \<Rightarrow> string \<Rightarrow> report_entry" where
  "short_entry i msg = [(''row'', CInt (int i)), (''ok'', CBool False), (''message'', CStr msg)]"

definition full_entry ::
  "nat \<Rightarrow> string \<Rightarrow> string \<Rightarrow> RenderResult \<Rightarrow> string \<Rightarrow> int option \<Rightarrow> report_entry" where
  "full_entry i query legend rr2 source cid =
     [(''row'', CInt (int i)), (''query'', CStr query), (''legend'', CStr legend),
      (''ok'', CBool (rr_ok rr2)),
      (''out'', (case rr_out_path rr2 of None \<Rightarrow> CNone | Some p \<Rightarrow> CStr p)),
      (''source'', CStr source),
      (''cid'', (case cid of None \<Rightarrow> CNone | Some n \<Rightarrow> CInt n)),
      (''message'', CStr (rr_message rr2))]"

text \<open>The name of the file of one row, \<^verbatim>\<open>f"{i:04d}_{safe_label}.{fmt}"\<close>.\<close>

definition out_file_name :: "nat \<Rightarrow> string \<Rightarrow> string \<Rightarrow> string" where
  "out_file_name i legend fmt =
     zfill 4 i @ ''_''
       @ take 80 (replace_char (CHR ''/'') ''_'' (replace_char (CHR '' '') ''_'' legend))
       @ ''.'' @ fmt"

text \<open>The state of the loop over the rows: the file system, \<^verbatim>\<open>report_rows\<close> and
  \<^verbatim>\<open>rendered_items\<close>.\<close>

type_synonym rendered_item = "string \<times> string \<times> string"

type_synonym batch_state = "filesystem \<times> report_entry list \<times> rendered_item list"

text \<open>One pass of the loop \<^verbatim>\<open>for i, row in df.iterrows()\<close> of \<^verbatim>\<open>batch\<close>.\<close>

definition batch_row ::
  "('mol, 'img) toolkit \<Rightarrow> get_compounds \<Rightarrow> path \<Rightarrow> string \<Rightarrow> string \<Rightarrow> bool \<Rightarrow> bool \<Rightarrow> string
     \<Rightarrow> bool \<Rightarrow> batch_state \<Rightarrow> nat \<times> (string \<times> string) list \<Rightarrow> error + batch_state" where
  "batch_row tk get_compounds outp smiles_col name_col has_smiles has_name fmt no_h st ir =
     (case (st, ir) of ((fs, report_rows, rendered_items), (i, row)) \<Rightarrow>
       (let raw_smiles = (if has_smiles then strip (row_get row smiles_col) else []);
            raw_name = (if has_name then strip (row_get row name_col) else []);
            query = (if raw_smiles \<noteq> [] then raw_smiles else raw_name)
        in if query = []
           then Inr (fs, report_rows @ [short_entry i ''empty''], rendered_items)
           else
             (case (if raw_smiles \<noteq> [] then Inr (Inr (raw_smiles, ''input_smiles'', None))
                    else (case resolve_name_to_smiles get_compounds raw_name 20 of
                            Inl e \<Rightarrow> Inl (Raised e)
                          | Inr rr \<Rightarrow>
                              (case res_smiles rr of
                                 None \<Rightarrow> Inr (Inl (res_message rr))
                               | Some sm \<Rightarrow>
                                   if sm = [] then Inr (Inl (res_message rr))
                                   else Inr (Inr (sm, res_source rr, res_pubchem_cid rr)))))
              of
                Inl e \<Rightarrow> Inl e
              | Inr (Inl msg) \<Rightarrow> Inr (fs, report_rows @ [short_entry i msg], rendered_items)
              | Inr (Inr (smiles, source, cid)) \<Rightarrow>
                  (let legend = (if raw_name \<noteq> [] then raw_name else query);
                       out_file = path_join outp (out_file_name i legend fmt)
                   in case render_molecule tk fs smiles (path_str out_file) (900, 700) legend
                             True no_h 300 of
                        Inl e \<Rightarrow> Inl (Raised e)
                      | Inr (rr2, fs') \<Rightarrow>
                          Inr (fs',
                               report_rows @ [full_entry i query legend rr2 source cid],
                               if rr_ok rr2
                               then rendered_items @ [(legend, smiles, path_str out_file)]
                               else rendered_items)))))"

text \<open>The loop over the rows; an exception ends it.\<close>

fun batch_rows ::
  "(batch_state \<Rightarrow> nat \<times> (string \<times> string) list \<Rightarrow> error + batch_state) \<Rightarrow> batch_state
     \<Rightarrow> (nat \<times> (string \<times> string) list) list \<Rightarrow> error + batch_state" where
  "batch_rows body st [] = Inr st"
| "batch_rows body st (ir # rest) =
     (case body st ir of
        Inl e \<Rightarrow> Inl e
      | Inr st' \<Rightarrow> batch_rows body st' rest)"

text \<open>
  \<^verbatim>\<open>pd.DataFrame(report_rows)\<close> for a list of dicts: the columns are the keys of all the
  dicts, each once, in the order in which they first appear; a dict without a key has a
  missing value in that column. \<^verbatim>\<open>to_csv\<close> writes the names of the columns and then one
  line for each dict; a missing value is written as an empty field, as \<^verbatim>\<open>None\<close> is. The
  cells are the values of the dicts, before a column is converted to one type.
\<close>

definition DataFrame_columns :: "report_entry list \<Rightarrow> string list" where
  "DataFrame_columns entries = rev (remdups (rev (concat (map (map fst) entries))))"

definition DataFrame :: "report_entry list \<Rightarrow> file_content" where
  "DataFrame entries =
     (let cols = DataFrame_columns entries
      in Table cols
           (map (\<lambda>e. map (\<lambda>c. case map_of e c of Some v \<Rightarrow> v | None \<Rightarrow> CNone) cols) entries))"

text \<open>
  \<^verbatim>\<open>batch\<close> from its first line to \<^verbatim>\<open>to_csv\<close>, which writes the report. The result is
  the file system, the parsed grid and \<^verbatim>\<open>rendered_items\<close>, for the panels that follow.
  The messages on the console are left out.
\<close>

definition batch_report ::
  "('mol, 'img) toolkit \<Rightarrow> get_compounds \<Rightarrow> (string \<Rightarrow> string + dataframe) \<Rightarrow> filesystem
     \<Rightarrow> string \<Rightarrow> string \<Rightarrow> string \<Rightarrow> string \<Rightarrow> string \<Rightarrow> bool \<Rightarrow> string
     \<Rightarrow> error + filesystem \<times> (int \<times> int) \<times> rendered_item list" where
  "batch_report tk get_compounds read_csv fs input_file smiles_col name_col out_dir fmt no_h
       panel_grid =
     (case read_csv input_file of
        Inl e \<Rightarrow> Inl (Raised e)
      | Inr df \<Rightarrow>
          (let outp = Path out_dir
           in case mkdir_parents fs outp of
                Inl e \<Rightarrow> Inl (Raised e)
              | Inr fs1 \<Rightarrow>
                  (let has_smiles = (smiles_col \<in> set (df_columns df));
                       has_name = (name_col \<in> set (df_columns df))
                   in if \<not> has_smiles \<and> \<not> has_name then Inl (Exit 2)
                      else
                        (case parse_grid panel_grid of
                           Inl e \<Rightarrow> Inl e
                         | Inr g \<Rightarrow>
                             (case batch_rows
                                     (batch_row tk get_compounds outp smiles_col name_col
                                        has_smiles has_name fmt no_h)
                                     (fs1, [], []) (enumerate 0 (df_rows df)) of
                                Inl e \<Rightarrow> Inl e
                              | Inr (fs2, report_rows, rendered_items) \<Rightarrow>
                                  (case write_file fs2
                                          (path_str (path_join outp ''molpic_report.csv''))
                                          (DataFrame report_rows) of
                                     Inl e \<Rightarrow> Inl (Raised e)
                                   | Inr fs3 \<Rightarrow> Inr (fs3, g, rendered_items)))))))"

text \<open>
  The loop \<^verbatim>\<open>for start in range(0, len(items), capacity)\<close> with its counter
  \<^verbatim>\<open>panel_index\<close>. The body is a parameter; an exception of the body ends the loop. Next
  to the file system the loop returns what the body returns in each pass; the source keeps
  no such list. \<^verbatim>\<open>range\<close> raises for a step of zero, which the caller excludes.
\<close>

function panel_loop ::
  "(filesystem \<Rightarrow> nat \<Rightarrow> rendered_item list \<Rightarrow> error + filesystem \<times> 'r) \<Rightarrow> nat
     \<Rightarrow> rendered_item list \<Rightarrow> nat \<Rightarrow> nat \<Rightarrow> filesystem \<Rightarrow> error + filesystem \<times> 'r list" where
  "panel_loop body capacity items start panel_index fs =
     (if capacity = 0 \<or> length items \<le> start then Inr (fs, [])
      else
        (case body fs panel_index (take capacity (drop start items)) of
           Inl e \<Rightarrow> Inl e
         | Inr (fs1, p) \<Rightarrow>
             (case panel_loop body capacity items (start + capacity) (panel_index + 1) fs1 of
                Inl e \<Rightarrow> Inl e
              | Inr (fs2, ps) \<Rightarrow> Inr (fs2, p # ps))))"
  by pat_completeness auto
termination
  by (relation "measure (\<lambda>(body, capacity, items, start, panel_index, fs). length items - start)")
    auto

declare panel_loop.simps [simp del]

text \<open>The names of the two files of a panel, \<^verbatim>\<open>f"panel_{panel_index:03d}.{fmt}"\<close> and
  \<^verbatim>\<open>f"panel_{panel_index:03d}_caption.txt"\<close>, and its title,
  \<^verbatim>\<open>f"{panel_title_prefix} {panel_index:03d}"\<close>.\<close>

definition panel_name :: "nat \<Rightarrow> string \<Rightarrow> string" where
  "panel_name panel_index fmt = ''panel_'' @ zfill 3 panel_index @ ''.'' @ fmt"

definition caption_name :: "nat \<Rightarrow> string" where
  "caption_name panel_index = ''panel_'' @ zfill 3 panel_index @ ''_caption.txt''"

definition panel_title :: "string \<Rightarrow> nat \<Rightarrow> string" where
  "panel_title panel_title_prefix panel_index = panel_title_prefix @ '' '' @ zfill 3 panel_index"

text \<open>The body of that loop. It returns the result of \<^verbatim>\<open>render_grid\<close>, which the source
  discards.\<close>

definition render_panel ::
  "('mol, 'img) toolkit \<Rightarrow> float_format \<Rightarrow> path \<Rightarrow> string \<Rightarrow> int \<times> int \<Rightarrow> bool \<Rightarrow> string \<Rightarrow> bool
     \<Rightarrow> filesystem \<Rightarrow> nat \<Rightarrow> rendered_item list \<Rightarrow> error + filesystem \<times> RenderResult" where
  "render_panel tk ff outp fmt grid no_h panel_title_prefix captions fs panel_index chunk =
     (let legends = map fst chunk;
          smiles_list = map (\<lambda>x. fst (snd x)) chunk;
          panel_out = path_join outp (panel_name panel_index fmt);
          title = panel_title panel_title_prefix panel_index
      in case render_grid tk ff fs smiles_list (path_str panel_out) (Some legends) grid
                (550, 450) True no_h 300 title of
           Inl e \<Rightarrow> Inl (Raised e)
         | Inr (rr, fs1) \<Rightarrow>
             (case (if captions
                    then write_caption fs1 (path_str (path_join outp (caption_name panel_index)))
                           title legends
                    else Inr fs1) of
                Inl e \<Rightarrow> Inl (Raised e)
              | Inr fs2 \<Rightarrow> Inr (fs2, rr)))"

text \<open>\<^verbatim>\<open>batch\<close> after the report: the panels. \<^verbatim>\<open>items.sort(key=...)\<close> is stable.\<close>

definition batch_panels ::
  "('mol, 'img) toolkit \<Rightarrow> float_format \<Rightarrow> filesystem \<Rightarrow> path \<Rightarrow> string \<Rightarrow> int \<times> int \<Rightarrow> bool
     \<Rightarrow> bool \<Rightarrow> string \<Rightarrow> bool \<Rightarrow> string \<Rightarrow> rendered_item list
     \<Rightarrow> error + filesystem \<times> RenderResult list" where
  "batch_panels tk ff fs outp fmt grid no_h make_panels panel_title_prefix captions order_by
       rendered_items =
     (if make_panels \<and> rendered_items \<noteq> []
      then
        (let items = (if lower order_by = ''name''
                      then sort_key (\<lambda>x. lower (fst x)) rendered_items
                      else rendered_items);
             capacity = fst grid * snd grid
         in if capacity = 0 then Inl (ValueError ''range() arg 3 must not be zero'')
            else if capacity < 0 then Inr (fs, [])
            else panel_loop
                   (render_panel tk ff outp fmt grid no_h panel_title_prefix captions)
                   (nat capacity) items 0 1 fs)
      else Inr (fs, []))"

text \<open>\<^verbatim>\<open>batch\<close>: the file system at the end, and the results of the calls of
  \<^verbatim>\<open>render_grid\<close> in order.\<close>

definition batch ::
  "('mol, 'img) toolkit \<Rightarrow> float_format \<Rightarrow> get_compounds \<Rightarrow> (string \<Rightarrow> string + dataframe)
     \<Rightarrow> filesystem \<Rightarrow> string \<Rightarrow> string \<Rightarrow> string \<Rightarrow> string \<Rightarrow> string \<Rightarrow> bool \<Rightarrow> bool \<Rightarrow> string
     \<Rightarrow> string \<Rightarrow> bool \<Rightarrow> string \<Rightarrow> error + filesystem \<times> RenderResult list" where
  "batch tk ff get_compounds read_csv fs input_file smiles_col name_col out_dir fmt no_h
       make_panels panel_grid panel_title_prefix captions order_by =
     (case batch_report tk get_compounds read_csv fs input_file smiles_col name_col out_dir fmt
             no_h panel_grid of
        Inl e \<Rightarrow> Inl e
      | Inr (fs3, grid, rendered_items) \<Rightarrow>
          batch_panels tk ff fs3 (Path out_dir) fmt grid no_h make_panels panel_title_prefix
            captions order_by rendered_items)"

subsection \<open>Test doubles\<close>

text \<open>
  A toolkit, a lookup and a table to run the definitions on: molecules and images are
  strings, a string with a question mark does not parse, hydrogens cannot be removed from
  a molecule that has a capital H, and saving with a resolution of zero or less raises. The
  markup has its sizes in double quotes. The second toolkit differs in that drawing a grid
  as SVG raises.
\<close>

definition demo_toolkit :: "(string, string) toolkit" where
  \<open>demo_toolkit =
     \<lparr>MolFromSmiles = (\<lambda>s. if CHR ''?'' \<in> set s then None else Some s),
      Compute2DCoords = (\<lambda>m. ''2D '' @ m),
      RemoveHs = (\<lambda>m. if CHR ''H'' \<in> set m then Inl ''RemoveHs failed'' else Inr (''noH '' @ m)),
      MolToImage = (\<lambda>m sz legend. Inr (''image of '' @ m)),
      MolToSVG = (\<lambda>m sz opts legend. Inr (''<svg width="900" height="700">'' @ m @ ''</svg>'')),
      MolsToGridImage = (\<lambda>mols cols sz legends. Inr ''grid image''),
      MolsToGridSVG = (\<lambda>mols cols sz legends. Inr ''<svg width="1650" height="900"></svg>''),
      img_encode = (\<lambda>img dpi. case dpi of
                      None \<Rightarrow> Inr img
                    | Some d \<Rightarrow> if d \<le> 0 then Inl ''bad resolution'' else Inr img)\<rparr>\<close>

definition broken_grid_toolkit :: "(string, string) toolkit" where
  "broken_grid_toolkit =
     demo_toolkit\<lparr>MolsToGridSVG := (\<lambda>mols cols sz legends. Inl ''out of memory'')\<rparr>"

text \<open>Float operations that raise where the model leaves them open.\<close>

definition demo_float_format :: float_format where
  "demo_float_format =
     \<lparr>half_of_large = (\<lambda>w. Inl ''int too large to convert to float''),
      times_065_of_other = (\<lambda>n. Inl ''int too large to convert to float'')\<rparr>"

definition demo_lookup :: get_compounds where
  "demo_lookup q ns =
     (if q = ''ethanol'' then Inr [Compound (Some ''CCO'') None (Some 702)]
      else if q = ''offline'' then Inl ''connection timed out''
      else Inr [])"

definition demo_read_csv :: "string \<Rightarrow> string + dataframe" where
  "demo_read_csv file =
     (if file = ''in.csv''
      then Inr \<lparr>df_columns = [''smiles'', ''name''],
                df_rows = [[(''smiles'', ''CCO''), (''name'', ''ethanol'')],
                           [(''smiles'', ''  ''), (''name'', '' '')],
                           [(''smiles'', ''C?''), (''name'', ''bad'')]]\<rparr>
      else if file = ''blank.csv''
      then Inr \<lparr>df_columns = [''smiles'', ''name''],
                df_rows = [[(''smiles'', ''  ''), (''name'', '' '')]]\<rparr>
      else if file = ''names.csv''
      then Inr \<lparr>df_columns = [''name''],
                df_rows = [[(''name'', ''unknown'')], [(''name'', ''ethanol'')]]\<rparr>
      else Inl ''No such file'')"

text \<open>An empty file system, and one in which \<^verbatim>\<open>blocker\<close> is a regular file.\<close>

definition empty_fs :: filesystem where
  "empty_fs = \<lparr>dirs = {}, files = Map.empty\<rparr>"

definition blocked_fs :: filesystem where
  "blocked_fs = \<lparr>dirs = {}, files = [''blocker'' \<mapsto> Text ''not a directory'']\<rparr>"

subsection \<open>Notions for the properties of the batch command\<close>

text \<open>
  A name that \<^verbatim>\<open>pathlib\<close> keeps as one component; a path as \<^verbatim>\<open>Path\<close> makes it; and a
  file system in which a directory and those above it exist, with no regular file in the
  place of one of them.
\<close>

definition simple_name :: "string \<Rightarrow> bool" where
  "simple_name n = (n \<noteq> [] \<and> n \<noteq> ''.'' \<and> CHR ''/'' \<notin> set n)"

definition wf_path :: "path \<Rightarrow> bool" where
  "wf_path p = (root p \<in> set [[], ''/'', ''//''] \<and> list_all simple_name (tail p))"

definition settled :: "filesystem \<Rightarrow> path \<Rightarrow> bool" where
  "settled fs p = list_all (\<lambda>q. q \<in> dirs fs \<and> files fs q = None) (path_ancestors p)"

text \<open>
  What the entry of the report for one row is, without the loop and its state: the short
  dict for a row without a query and for a name that is not resolved, and else the long
  dict made from the result of the renderer, called on some file system.
\<close>

definition entry_of_row ::
  "('mol, 'img) toolkit \<Rightarrow> get_compounds \<Rightarrow> path \<Rightarrow> string \<Rightarrow> string \<Rightarrow> bool \<Rightarrow> bool \<Rightarrow> string
     \<Rightarrow> bool \<Rightarrow> nat \<Rightarrow> (string \<times> string) list \<Rightarrow> report_entry \<Rightarrow> bool" where
  "entry_of_row tk get_compounds outp smiles_col name_col has_smiles has_name fmt no_h i row e =
     (let rs = (if has_smiles then strip (row_get row smiles_col) else []);
          rn = (if has_name then strip (row_get row name_col) else []);
          legend = (if rn \<noteq> [] then rn else rs);
          out = path_str (path_join outp (out_file_name i legend fmt))
      in (rs = [] \<and> rn = [] \<longrightarrow> e = short_entry i ''empty'')
         \<and> (rs \<noteq> [] \<longrightarrow>
              (\<exists>fsa r fsb.
                  render_molecule tk fsa rs out (900, 700) legend True no_h 300 = Inr (r, fsb)
                  \<and> e = full_entry i rs legend r ''input_smiles'' None))
         \<and> (rs = [] \<and> rn \<noteq> [] \<longrightarrow>
              (\<exists>rr. resolve_name_to_smiles get_compounds rn 20 = Inr rr
                 \<and> (falsy (res_smiles rr) \<longrightarrow> e = short_entry i (res_message rr))
                 \<and> (\<not> falsy (res_smiles rr) \<longrightarrow>
                      (\<exists>fsa r fsb.
                          render_molecule tk fsa (the (res_smiles rr)) out (900, 700) legend True
                            no_h 300 = Inr (r, fsb)
                          \<and> e = full_entry i rn legend r (res_source rr)
                                  (res_pubchem_cid rr))))))"

section \<open>Properties\<close>

subsection \<open>Auxiliary facts\<close>

lemma strip_empty_iff: "strip s = [] \<longleftrightarrow> (\<forall>c\<in>set s. is_space c)"
proof -
  have "dropWhile is_space (rev (dropWhile is_space s)) = [] \<longleftrightarrow> dropWhile is_space s = []"
  proof (cases "dropWhile is_space s")
    case Nil
    show ?thesis unfolding Nil by simp
  next
    case (Cons y ys)
    then have "\<not> is_space y" using hd_dropWhile [of is_space s] by simp
    then show ?thesis using Cons by (auto simp: dropWhile_eq_Nil_conv)
  qed
  then show ?thesis by (simp add: strip_def dropWhile_eq_Nil_conv)
qed

lemma path_ancestors_Nil: "tail p = [] \<Longrightarrow> path_ancestors p = []"
  by (simp add: path_ancestors_def)

lemma path_ancestors_parent:
  assumes "tail p \<noteq> []"
  shows "path_ancestors p = path_ancestors (parent p) @ [path_str p]"
proof -
  obtain n where n: "length (tail p) = Suc n"
    using assms by (cases "tail p") auto
  have "map (\<lambda>k. path_str (p\<lparr>tail := take k (tail p)\<rparr>)) [1..<Suc n] =
        map (\<lambda>k. path_str (p\<lparr>tail := take k (butlast (tail p))\<rparr>)) [1..<Suc n]"
    by (rule map_cong) (auto simp: butlast_conv_take n min_def)
  moreover have "p\<lparr>tail := take (Suc n) (tail p)\<rparr> = p"
    using n by simp
  moreover have "[1..<Suc (Suc n)] = [1..<Suc n] @ [Suc n]"
    by simp
  ultimately show ?thesis
    using assms n by (simp only: path_ancestors_def parent_def map_append list.map) simp
qed

lemma mkdir_parents_Inr:
  "mkdir_parents fs p = Inr fs1 \<longleftrightarrow>
     (\<forall>q\<in>set (path_ancestors p). files fs q = None)
     \<and> fs1 = fs\<lparr>dirs := dirs fs \<union> set (path_ancestors p)\<rparr>"
proof (cases "tail p = []")
  case True
  then show ?thesis by (auto simp: mkdir_parents_def path_ancestors_Nil)
next
  case False
  then show ?thesis
    by (auto simp: mkdir_parents_def path_ancestors_parent [OF False] list_ex_iff)
qed

lemma mkdir_parents_files: "mkdir_parents fs p = Inr fs1 \<Longrightarrow> files fs1 = files fs"
  by (simp add: mkdir_parents_Inr)

lemma write_file_Inr:
  "write_file fs p d = Inr fs' \<longleftrightarrow> p \<notin> dirs fs \<and> fs' = fs\<lparr>files := (files fs)(p \<mapsto> d)\<rparr>"
  by (auto simp: write_file_def)

lemma save_image_Inr:
  "save_image tk fs img p dpi = Inr fs' \<Longrightarrow>
     \<exists>d. p \<notin> dirs fs \<and> fs' = fs\<lparr>files := (files fs)(p \<mapsto> d)\<rparr>"
  by (auto simp: save_image_def img_save_def write_file_Inr split: sum.splits)

lemma mol_from_smiles_None: "mol_from_smiles tk s no_h = None \<longleftrightarrow> MolFromSmiles tk s = None"
  by (simp add: mol_from_smiles_def Let_def split: option.splits sum.splits)

text \<open>What a call of a renderer does to the file system: the directories above the output
  path are made, or nothing is done; then the file is written, which is the case exactly
  when the result is a success.\<close>

lemma render_molecule_effect:
  assumes "render_molecule tk fs smiles out img_size legend transparent no_h png_dpi = Inr (r, fs')"
  shows "\<exists>fs1. (fs1 = fs \<or> mkdir_parents fs (parent (Path out)) = Inr fs1)
           \<and> (if rr_ok r
               then rr_message r = ''OK'' \<and> rr_smiles r = Some (strip smiles)
                    \<and> rr_out_path r = Some (path_str (Path out))
                    \<and> path_str (Path out) \<notin> dirs fs1
                    \<and> (\<exists>d. fs' = fs1\<lparr>files := (files fs1)(path_str (Path out) \<mapsto> d)\<rparr>)
               else rr_out_path r = None \<and> rr_message r \<noteq> ''OK'' \<and> fs' = fs1)"
  using assms
  by (auto simp: render_molecule_def Let_def write_file_Inr
      split: if_splits option.splits sum.splits dest!: save_image_Inr)

lemma render_molecule_Inl:
  "render_molecule tk fs smiles out img_size legend transparent no_h png_dpi = Inl e \<Longrightarrow>
     mkdir_parents fs (parent (Path out)) = Inl e"
  by (auto simp: render_molecule_def Let_def split: if_splits option.splits sum.splits)

lemma render_grid_effect:
  assumes "render_grid tk ff fs smiles_list out legends grid sub_img_size transparent no_h png_dpi
             title = Inr (r, fs')"
  shows "\<exists>fs1. (fs1 = fs \<or> mkdir_parents fs (parent (Path out)) = Inr fs1)
           \<and> (if rr_ok r
               then rr_message r = ''OK'' \<and> rr_smiles r = Some ''GRID''
                    \<and> rr_out_path r = Some (path_str (Path out))
                    \<and> path_str (Path out) \<notin> dirs fs1
                    \<and> (\<exists>d. fs' = fs1\<lparr>files := (files fs1)(path_str (Path out) \<mapsto> d)\<rparr>)
               else rr_out_path r = None \<and> rr_message r \<noteq> ''OK'' \<and> fs' = fs1)"
  using assms
  by (auto simp: render_grid_def Let_def write_file_Inr
      split: if_splits option.splits sum.splits prod.splits dest!: save_image_Inr)

lemma render_grid_Inl:
  "render_grid tk ff fs smiles_list out legends grid sub_img_size transparent no_h png_dpi title
     = Inl e \<Longrightarrow> mkdir_parents fs (parent (Path out)) = Inl e"
  by (auto simp: render_grid_def Let_def split: if_splits option.splits sum.splits prod.splits)

subsection \<open>The classifier\<close>

lemma digit_range: "(CHR ''0'' \<le> c \<and> c \<le> CHR ''9'') = (c \<in> set digit_chars)"
proof
  assume "CHR ''0'' \<le> c \<and> c \<le> CHR ''9''"
  then have "48 \<le> (of_char c :: nat) \<and> (of_char c :: nat) \<le> 57"
    by (simp add: less_eq_char_def)
  then have "(of_char c :: nat) \<in> of_char ` set digit_chars"
    unfolding digit_chars_def by simp arith
  then show "c \<in> set digit_chars"
    by (simp only: inj_image_mem_iff [OF inj_of_char])
next
  assume "c \<in> set digit_chars"
  then show "CHR ''0'' \<le> c \<and> c \<le> CHR ''9''"
    by (auto simp: less_eq_char_def digit_chars_def)
qed

text \<open>
  Claim C1. The classifier, in the command line tool and in the web form, returns true
  exactly when its input contains at least one of the characters
  \<^verbatim>\<open># = ( ) [ ] @ + \ / -\<close> or a digit from 0 to 9; whether the input is a valid
  structure plays no role.
\<close>

theorem classifier_iff_structural_char:
  "is_probably_smiles text =
     (\<exists>c. c \<in> set text \<and>
        (c \<in> set ''#=()[]@+/-'' \<or> c = CHR 0x5C \<or> (CHR ''0'' \<le> c \<and> c \<le> CHR ''9'')))
   \<and> is_smiles text = is_probably_smiles text"
proof -
  have chars: "c \<in> set smiles_chars \<longleftrightarrow>
      (c \<in> set ''#=()[]@+/-'' \<or> c = CHR 0x5C \<or> (CHR ''0'' \<le> c \<and> c \<le> CHR ''9''))" for c
    unfolding digit_range by (auto simp: smiles_chars_def digit_chars_def)
  have "is_probably_smiles text = (\<exists>c. c \<in> set text \<and> c \<in> set smiles_chars)"
    by (auto simp: is_probably_smiles_def list_ex_iff)
  moreover have "is_smiles text = (\<exists>c. c \<in> set text \<and> c \<in> set smiles_chars)"
    by (auto simp: is_smiles_def list_ex_iff)
  ultimately show ?thesis by (simp only: chars)
qed

theorem classifier_iff_structural_char_witness:
  "is_probably_smiles ''2-propanol'' \<and> is_smiles ''2-propanol''
   \<and> \<not> is_probably_smiles ''aspirin'' \<and> \<not> is_smiles ''aspirin''"
proof -
  have "\<exists>c. c \<in> set ''2-propanol'' \<and>
        (c \<in> set ''#=()[]@+/-'' \<or> c = CHR 0x5C \<or> (CHR ''0'' \<le> c \<and> c \<le> CHR ''9''))"
    by (rule exI [of _ "CHR ''-''"]) simp
  moreover have "\<not> (\<exists>c. c \<in> set ''aspirin'' \<and>
        (c \<in> set ''#=()[]@+/-'' \<or> c = CHR 0x5C \<or> (CHR ''0'' \<le> c \<and> c \<le> CHR ''9'')))"
    by (auto simp: less_eq_char_def)
  ultimately show ?thesis
    using classifier_iff_structural_char [of "''2-propanol''"]
      classifier_iff_structural_char [of "''aspirin''"]
    by blast
qed

subsection \<open>The renderer of one molecule\<close>

text \<open>
  Claim C2, as the code has it. For every structure string that is empty or consists of
  white space only, the renderer of one molecule returns a failure whose structure string
  and output path are absent and whose message is \<^verbatim>\<open>Empty SMILES provided.\<close>, and it
  leaves the file system as it was: no file and no directory is made, and no exception
  leaves the call.
\<close>

theorem render_molecule_empty:
  assumes "\<forall>c\<in>set smiles. is_space c"
  shows "render_molecule tk fs smiles out img_size legend transparent no_h png_dpi =
           Inr (RenderResult None None False ''Empty SMILES provided.'', fs)"
  using assms by (simp add: render_molecule_def strip_empty_iff [symmetric])

theorem render_molecule_empty_witness:
  "is_space (CHR '' '') \<and> is_space (CHR 0x09) \<and> is_space (CHR 0x0A) \<and>
   render_molecule demo_toolkit blocked_fs [CHR '' '', CHR 0x09, CHR 0x0A] ''blocker/molecule.svg''
       (900, 700) ''x'' True False 300
     = Inr (RenderResult None None False ''Empty SMILES provided.'', blocked_fs)"
proof -
  have h: "\<forall>c\<in>set [CHR '' '', CHR 0x09, CHR 0x0A]. is_space c"
    by (simp add: is_space_def)
  show ?thesis using h render_molecule_empty [OF h] by simp
qed

text \<open>The message that claim C2 names is not the one that the code returns.\<close>

theorem render_molecule_empty_message_counterexample:
  "render_molecule demo_toolkit empty_fs [] ''molecule.svg'' (900, 700) [] True False 300 =
     Inr (RenderResult None None False ''Empty SMILES provided.'', empty_fs)
   \<and> ''Empty SMILES provided.'' \<noteq> ''Empty structure provided.''"
  by (simp add: render_molecule_def strip_def)

text \<open>
  Claim C3, as the code has it. The directories above the output path are made before the
  extension is looked at, and outside the \<^verbatim>\<open>try\<close> statement. When no regular file is in
  the way of these directories, then for every structure string that is not empty after
  trimming and that the toolkit parses, and every output path whose extension, in lower
  case, is neither \<^verbatim>\<open>.png\<close> nor \<^verbatim>\<open>.svg\<close>, the renderer returns a failure with the
  message \<^verbatim>\<open>Output must end with .png or .svg\<close>; the files are what they were, and the
  only change is that these directories have been made.
\<close>

theorem render_molecule_bad_extension:
  assumes "strip smiles \<noteq> []" and "MolFromSmiles tk (strip smiles) \<noteq> None"
    and "lower (suffix (Path out)) \<noteq> ''.png''" and "lower (suffix (Path out)) \<noteq> ''.svg''"
    and "\<forall>q\<in>set (path_ancestors (parent (Path out))). files fs q = None"
  shows "render_molecule tk fs smiles out img_size legend transparent no_h png_dpi =
           Inr (RenderResult (Some (strip smiles)) None False ''Output must end with .png or .svg'',
                fs\<lparr>dirs := dirs fs \<union> set (path_ancestors (parent (Path out)))\<rparr>)"
proof -
  from assms(2) obtain mol where "mol_from_smiles tk (strip smiles) no_h = Some mol"
    using mol_from_smiles_None [of tk "strip smiles" no_h]
    by (cases "mol_from_smiles tk (strip smiles) no_h") auto
  moreover have "mkdir_parents fs (parent (Path out)) =
      Inr (fs\<lparr>dirs := dirs fs \<union> set (path_ancestors (parent (Path out)))\<rparr>)"
    using assms(5) by (simp add: mkdir_parents_Inr)
  ultimately show ?thesis using assms(1,3,4)
    by (simp add: render_molecule_def Let_def)
qed

theorem render_molecule_bad_extension_witness:
  "strip ''CCO'' \<noteq> [] \<and> MolFromSmiles demo_toolkit (strip ''CCO'') \<noteq> None
   \<and> lower (suffix (Path ''out/fig.JPG'')) \<noteq> ''.png''
   \<and> lower (suffix (Path ''out/fig.JPG'')) \<noteq> ''.svg''
   \<and> path_ancestors (parent (Path ''out/fig.JPG'')) = [''out'']
   \<and> files blocked_fs ''out'' = None
   \<and> render_molecule demo_toolkit blocked_fs ''CCO'' ''out/fig.JPG'' (900, 700) ''ethanol'' True
        False 300 =
       Inr (RenderResult (Some (strip ''CCO'')) None False ''Output must end with .png or .svg'',
            blocked_fs\<lparr>dirs := dirs blocked_fs \<union> set [''out'']\<rparr>)"
proof -
  have s: "strip ''CCO'' = ''CCO''"
    by code_simp
  have h1: "strip ''CCO'' \<noteq> []"
    by (simp add: s)
  have h2: "MolFromSmiles demo_toolkit (strip ''CCO'') \<noteq> None"
    by (simp add: s demo_toolkit_def)
  have sfx: "lower (suffix (Path ''out/fig.JPG'')) = ''.jpg''"
    by code_simp
  have h3: "lower (suffix (Path ''out/fig.JPG'')) \<noteq> ''.png''"
    by (simp add: sfx)
  have h4: "lower (suffix (Path ''out/fig.JPG'')) \<noteq> ''.svg''"
    by (simp add: sfx)
  have a: "path_ancestors (parent (Path ''out/fig.JPG'')) = [''out'']"
    by code_simp
  have f: "files blocked_fs ''out'' = None"
    by (simp add: blocked_fs_def)
  have h5: "\<forall>q\<in>set (path_ancestors (parent (Path ''out/fig.JPG''))). files blocked_fs q = None"
    by (simp add: a f)
  show ?thesis
    using h1 h2 h3 h4 a f
      render_molecule_bad_extension [OF h1 h2 h3 h4 h5, of "(900, 700)" "''ethanol''" True False
        300]
    by simp
qed

text \<open>
  Claim C3 does not hold of every output path: when the directory of the output path is a
  regular file, \<^verbatim>\<open>mkdir\<close> raises, the exception leaves the renderer, and there is no
  result and no message.
\<close>

theorem render_molecule_bad_extension_counterexample:
  "strip ''CCO'' \<noteq> [] \<and> MolFromSmiles demo_toolkit (strip ''CCO'') \<noteq> None
   \<and> lower (suffix (Path ''blocker/fig.jpg'')) = ''.jpg''
   \<and> files blocked_fs ''blocker'' \<noteq> None
   \<and> isl (render_molecule demo_toolkit blocked_fs ''CCO'' ''blocker/fig.jpg'' (900, 700)
        ''ethanol'' True False 300)
   \<and> projl (render_molecule demo_toolkit blocked_fs ''CCO'' ''blocker/fig.jpg'' (900, 700)
        ''ethanol'' True False 300) = ''FileExistsError''"
  by code_simp

text \<open>
  Claim C4, as the code has it. A result of either renderer with \<open>ok = True\<close> has the
  message \<^verbatim>\<open>OK\<close> and the output path as a string, and the file system that the renderer
  leaves has a file at that path. For one molecule the result carries the structure
  string with the white space around it removed; for a grid it carries \<^verbatim>\<open>GRID\<close>. A
  result with \<open>ok = False\<close> has no output path and another message, and the files are
  what they were. A call that returns no result is one whose \<^verbatim>\<open>mkdir\<close> raised.
\<close>

theorem render_result_invariant:
  "(case render_molecule tk fs smiles out img_size legend transparent no_h png_dpi of
      Inl e \<Rightarrow> mkdir_parents fs (parent (Path out)) = Inl e
    | Inr (r, fs') \<Rightarrow>
        (rr_ok r \<longrightarrow>
           rr_message r = ''OK'' \<and> rr_smiles r = Some (strip smiles)
           \<and> rr_out_path r = Some (path_str (Path out))
           \<and> files fs' (path_str (Path out)) \<noteq> None)
        \<and> (\<not> rr_ok r \<longrightarrow>
             rr_out_path r = None \<and> rr_message r \<noteq> ''OK'' \<and> files fs' = files fs))
   \<and> (case render_grid gtk ff gs smiles_list gout legends grid sub_img_size gtransparent gno_h
            gdpi title of
        Inl e \<Rightarrow> mkdir_parents gs (parent (Path gout)) = Inl e
      | Inr (r, gs') \<Rightarrow>
          (rr_ok r \<longrightarrow>
             rr_message r = ''OK'' \<and> rr_smiles r = Some ''GRID''
             \<and> rr_out_path r = Some (path_str (Path gout))
             \<and> files gs' (path_str (Path gout)) \<noteq> None)
          \<and> (\<not> rr_ok r \<longrightarrow>
               rr_out_path r = None \<and> rr_message r \<noteq> ''OK'' \<and> files gs' = files gs))"
proof -
  have m: "case render_molecule tk fs smiles out img_size legend transparent no_h png_dpi of
      Inl e \<Rightarrow> mkdir_parents fs (parent (Path out)) = Inl e
    | Inr (r, fs') \<Rightarrow>
        (rr_ok r \<longrightarrow>
           rr_message r = ''OK'' \<and> rr_smiles r = Some (strip smiles)
           \<and> rr_out_path r = Some (path_str (Path out))
           \<and> files fs' (path_str (Path out)) \<noteq> None)
        \<and> (\<not> rr_ok r \<longrightarrow>
             rr_out_path r = None \<and> rr_message r \<noteq> ''OK'' \<and> files fs' = files fs)"
  proof (cases "render_molecule tk fs smiles out img_size legend transparent no_h png_dpi")
    case (Inl e)
    then show ?thesis by (simp add: render_molecule_Inl)
  next
    case (Inr x)
    obtain r fs' where x: "x = (r, fs')" by (cases x)
    show ?thesis
      using render_molecule_effect [OF Inr [unfolded x]]
      by (auto simp: Inr x mkdir_parents_files split: if_splits)
  qed
  have g: "case render_grid gtk ff gs smiles_list gout legends grid sub_img_size gtransparent gno_h
            gdpi title of
        Inl e \<Rightarrow> mkdir_parents gs (parent (Path gout)) = Inl e
      | Inr (r, gs') \<Rightarrow>
          (rr_ok r \<longrightarrow>
             rr_message r = ''OK'' \<and> rr_smiles r = Some ''GRID''
             \<and> rr_out_path r = Some (path_str (Path gout))
             \<and> files gs' (path_str (Path gout)) \<noteq> None)
          \<and> (\<not> rr_ok r \<longrightarrow>
               rr_out_path r = None \<and> rr_message r \<noteq> ''OK'' \<and> files gs' = files gs)"
  proof (cases "render_grid gtk ff gs smiles_list gout legends grid sub_img_size gtransparent gno_h
            gdpi title")
    case (Inl e)
    then show ?thesis by (simp add: render_grid_Inl)
  next
    case (Inr x)
    obtain r gs' where x: "x = (r, gs')" by (cases x)
    show ?thesis
      using render_grid_effect [OF Inr [unfolded x]]
      by (auto simp: Inr x mkdir_parents_files split: if_splits)
  qed
  from m g show ?thesis by (rule conjI)
qed

theorem render_result_invariant_witness:
  "rr_ok (fst (projr (render_molecule demo_toolkit empty_fs '' CCO '' ''out/x.svg'' (900, 700) []
      True False 300)))
   \<and> rr_smiles (fst (projr (render_molecule demo_toolkit empty_fs '' CCO '' ''out/x.svg''
        (900, 700) [] True False 300))) = Some (strip '' CCO '')
   \<and> files (snd (projr (render_molecule demo_toolkit empty_fs '' CCO '' ''out/x.svg'' (900, 700) []
        True False 300))) (path_str (Path ''out/x.svg'')) \<noteq> None
   \<and> \<not> rr_ok (fst (projr (render_grid broken_grid_toolkit demo_float_format empty_fs [''CCO'']
        ''out/p.svg'' None (2, 3) (550, 450) True False 300 [])))
   \<and> rr_out_path (fst (projr (render_grid broken_grid_toolkit demo_float_format empty_fs
        [''CCO''] ''out/p.svg'' None (2, 3) (550, 450) True False 300 []))) = None"
proof -
  have "\<not> isl (render_molecule demo_toolkit empty_fs '' CCO '' ''out/x.svg'' (900, 700) []
      True False 300)"
    by code_simp
  then obtain r fs' where m: "render_molecule demo_toolkit empty_fs '' CCO '' ''out/x.svg''
      (900, 700) [] True False 300 = Inr (r, fs')"
    by (cases "render_molecule demo_toolkit empty_fs '' CCO '' ''out/x.svg'' (900, 700) []
      True False 300") auto
  have "\<not> isl (render_grid broken_grid_toolkit demo_float_format empty_fs [''CCO'']
        ''out/p.svg'' None (2, 3) (550, 450) True False 300 [])"
    by code_simp
  then obtain g gs' where q: "render_grid broken_grid_toolkit demo_float_format empty_fs
        [''CCO''] ''out/p.svg'' None (2, 3) (550, 450) True False 300 [] = Inr (g, gs')"
    by (cases "render_grid broken_grid_toolkit demo_float_format empty_fs [''CCO'']
        ''out/p.svg'' None (2, 3) (550, 450) True False 300 []") auto
  have a: "rr_ok (fst (projr (render_molecule demo_toolkit empty_fs '' CCO '' ''out/x.svg''
      (900, 700) [] True False 300)))"
    by code_simp
  have b: "\<not> rr_ok (fst (projr (render_grid broken_grid_toolkit demo_float_format empty_fs
        [''CCO''] ''out/p.svg'' None (2, 3) (550, 450) True False 300 [])))"
    by code_simp
  show ?thesis
    using a b
      render_result_invariant [where tk = demo_toolkit and fs = empty_fs and smiles = "'' CCO ''"
        and out = "''out/x.svg''" and img_size = "(900, 700)" and legend = "[]"
        and transparent = True and no_h = False and png_dpi = 300
        and gtk = broken_grid_toolkit and ff = demo_float_format and gs = empty_fs
        and smiles_list = "[''CCO'']" and gout = "''out/p.svg''" and legends = None
        and grid = "(2, 3)" and sub_img_size = "(550, 450)" and gtransparent = True
        and gno_h = False and gdpi = 300 and title = "[]"]
    by (simp add: m q)
qed

text \<open>The structure string of a successful result is the trimmed one, not the string
  that was passed.\<close>

theorem render_result_smiles_counterexample:
  "rr_ok (fst (projr (render_molecule demo_toolkit empty_fs '' CCO '' ''out/x.svg'' (900, 700) []
      True False 300)))
   \<and> rr_smiles (fst (projr (render_molecule demo_toolkit empty_fs '' CCO '' ''out/x.svg''
        (900, 700) [] True False 300))) \<noteq> Some '' CCO ''"
  by code_simp

text \<open>
  Claim C9. After every successful parse the 2D coordinates are computed, and the removal
  of hydrogens, when asked for, is tried on the molecule that has them. When that removal
  raises, the molecule with its hydrogens is kept, and the renderer returns what it returns
  when no removal is asked for.
\<close>

theorem remove_hs_failure_keeps_molecule:
  "(MolFromSmiles tk s = Some m \<longrightarrow>
      mol_from_smiles tk s no_h =
        Some (if no_h
              then (case RemoveHs tk (Compute2DCoords tk m) of
                      Inr m' \<Rightarrow> m'
                    | Inl e \<Rightarrow> Compute2DCoords tk m)
              else Compute2DCoords tk m))
   \<and> (MolFromSmiles tk (strip smiles) = Some m' \<and> RemoveHs tk (Compute2DCoords tk m') = Inl e'
        \<longrightarrow> mol_from_smiles tk (strip smiles) True = Some (Compute2DCoords tk m')
            \<and> render_molecule tk fs smiles out img_size legend transparent True png_dpi =
                render_molecule tk fs smiles out img_size legend transparent False png_dpi)"
proof -
  have "mol_from_smiles tk (strip smiles) True = mol_from_smiles tk (strip smiles) False"
    if "MolFromSmiles tk (strip smiles) = Some m'" "RemoveHs tk (Compute2DCoords tk m') = Inl e'"
    using that by (simp add: mol_from_smiles_def)
  then show ?thesis
    by (auto simp: render_molecule_def mol_from_smiles_def Let_def split: sum.splits)
qed

theorem remove_hs_failure_keeps_molecule_witness:
  "MolFromSmiles demo_toolkit (strip ''[H]O[H]'') = Some ''[H]O[H]''
   \<and> RemoveHs demo_toolkit (Compute2DCoords demo_toolkit ''[H]O[H]'') = Inl ''RemoveHs failed''
   \<and> mol_from_smiles demo_toolkit (strip ''[H]O[H]'') True = Some ''2D [H]O[H]''
   \<and> render_molecule demo_toolkit empty_fs ''[H]O[H]'' ''water.svg'' (900, 700) [] True True 300 =
       render_molecule demo_toolkit empty_fs ''[H]O[H]'' ''water.svg'' (900, 700) [] True False 300
   \<and> rr_ok (fst (projr (render_molecule demo_toolkit empty_fs ''[H]O[H]'' ''water.svg''
        (900, 700) [] True True 300)))"
proof -
  have s: "strip ''[H]O[H]'' = ''[H]O[H]''"
    by code_simp
  have h1: "MolFromSmiles demo_toolkit (strip ''[H]O[H]'') = Some ''[H]O[H]''"
    by (simp add: s demo_toolkit_def)
  have h2: "RemoveHs demo_toolkit (Compute2DCoords demo_toolkit ''[H]O[H]'') = Inl ''RemoveHs failed''"
    by (simp add: demo_toolkit_def)
  have h3: "Compute2DCoords demo_toolkit ''[H]O[H]'' = ''2D [H]O[H]''"
    by (simp add: demo_toolkit_def)
  have h4: "rr_ok (fst (projr (render_molecule demo_toolkit empty_fs ''[H]O[H]'' ''water.svg''
        (900, 700) [] True True 300)))"
    by code_simp
  show ?thesis
    using h1 h2 h3 h4
      remove_hs_failure_keeps_molecule [where tk = demo_toolkit and s = "''[H]O[H]''"
        and m = "''[H]O[H]''" and no_h = True and smiles = "''[H]O[H]''" and m' = "''[H]O[H]''"
        and e' = "''RemoveHs failed''" and fs = empty_fs and out = "''water.svg''"
        and img_size = "(900, 700)" and legend = "[]" and transparent = True and png_dpi = 300]
    by simp
qed

subsection \<open>The renderer of a grid\<close>

text \<open>
  Claim C10. The grid renderer does not depend on its argument \<open>transparent\<close>: two calls
  that differ in it alone return the same result and leave the same file system, and so
  the same file contents, or raise the same exception.
\<close>

theorem render_grid_ignores_transparent:
  "render_grid tk ff fs smiles_list out legends grid sub_img_size t1 no_h png_dpi title =
   render_grid tk ff fs smiles_list out legends grid sub_img_size t2 no_h png_dpi title"
  by (simp add: render_grid_def Let_def cong: sum.case_cong prod.case_cong if_cong)

theorem render_grid_ignores_transparent_witness:
  "render_grid demo_toolkit demo_float_format empty_fs [''CCO'', ''C''] ''out/p.svg'' None (2, 3)
     (550, 450) True False 300 ''Panel 001'' =
   render_grid demo_toolkit demo_float_format empty_fs [''CCO'', ''C''] ''out/p.svg'' None (2, 3)
     (550, 450) False False 300 ''Panel 001''"
  by (rule render_grid_ignores_transparent)

subsection \<open>The resolver\<close>

lemma resolve_try_smiles:
  "resolve_try gc q = Inr r \<Longrightarrow> res_smiles r \<noteq> None \<Longrightarrow> res_message r = ''OK''"
  by (auto simp: resolve_try_def Let_def split: sum.splits list.splits if_splits)

lemma resolve_try_fault:
  "gc q ''name'' = Inl e \<or> (gc q ''name'' = Inr [] \<and> gc q ''query'' = Inl e)
     \<Longrightarrow> resolve_try gc q = Inl e"
  by (auto simp: resolve_try_def)

lemma resolve_returns: "\<exists>r. resolve_name_to_smiles gc name t = Inr r"
  by (simp add: resolve_name_to_smiles_def Let_def split: sum.splits)
text \<open>
  Claim C5, as the code has it. No exception leaves the resolver: for every input and
  every behaviour of the lookup it returns a result. The result has a structure string
  only if its message is \<^verbatim>\<open>OK\<close>. An input that is empty or white space only gives the
  input itself as query, no structure, no identifier, the source \<^verbatim>\<open>none\<close> and the
  message \<^verbatim>\<open>Empty name provided.\<close>, with its full stop. When a lookup raises, by
  name or, after a lookup by name that found nothing, by query, the result has no
  structure, no identifier and the message \<^verbatim>\<open>PubChem resolution error: \<close> followed by
  the exception's text.
\<close>

theorem resolve_never_raises:
  "\<exists>r. resolve_name_to_smiles gc name t = Inr r
     \<and> (res_smiles r \<noteq> None \<longrightarrow> res_message r = ''OK'')
     \<and> ((\<forall>c\<in>set name. is_space c) \<longrightarrow>
          r = ResolveResult name None ''none'' None ''Empty name provided.'')
     \<and> (strip name \<noteq> [] \<and>
          (gc (strip name) ''name'' = Inl e
           \<or> (gc (strip name) ''name'' = Inr [] \<and> gc (strip name) ''query'' = Inl e)) \<longrightarrow>
          r = ResolveResult (strip name) None ''pubchem'' None (''PubChem resolution error: '' @ e))"
proof -
  obtain r where r: "resolve_name_to_smiles gc name t = Inr r"
    using resolve_returns by blast
  have ok: "res_message r = ''OK''" if "res_smiles r \<noteq> None"
    using r that
    by (auto simp: resolve_name_to_smiles_def Let_def split: sum.splits if_splits
        dest: resolve_try_smiles)
  have empty: "r = ResolveResult name None ''none'' None ''Empty name provided.''"
    if "\<forall>c\<in>set name. is_space c"
    using r that by (simp add: resolve_name_to_smiles_def strip_empty_iff [symmetric])
  have fault:
    "r = ResolveResult (strip name) None ''pubchem'' None (''PubChem resolution error: '' @ e)"
    if "strip name \<noteq> []"
      and "gc (strip name) ''name'' = Inl e
           \<or> (gc (strip name) ''name'' = Inr [] \<and> gc (strip name) ''query'' = Inl e)"
    using r that resolve_try_fault [of gc "strip name" e]
    by (simp add: resolve_name_to_smiles_def Let_def)
  show ?thesis
    using r ok empty fault by blast
qed

theorem resolve_never_raises_witness:
  "resolve_name_to_smiles demo_lookup ''  '' 20 =
     Inr (ResolveResult ''  '' None ''none'' None ''Empty name provided.'')
   \<and> resolve_name_to_smiles demo_lookup ''offline'' 20 =
       Inr (ResolveResult ''offline'' None ''pubchem'' None
              ''PubChem resolution error: connection timed out'')
   \<and> resolve_name_to_smiles demo_lookup '' ethanol '' 20 =
       Inr (ResolveResult ''ethanol'' (Some ''CCO'') ''pubchem'' (Some 702) ''OK'')"
proof -
  have sp: "\<forall>c\<in>set ''  ''. is_space c"
    by (simp add: is_space_def)
  have so: "strip ''offline'' = ''offline''"
    by code_simp
  have fo: "demo_lookup ''offline'' ''name'' = Inl ''connection timed out''"
    by (simp add: demo_lookup_def)
  have eth: "resolve_name_to_smiles demo_lookup '' ethanol '' 20 =
       Inr (ResolveResult ''ethanol'' (Some ''CCO'') ''pubchem'' (Some 702) ''OK'')"
    by code_simp
  from resolve_never_raises [of demo_lookup "''  ''" 20 "[]"] sp
  have a: "resolve_name_to_smiles demo_lookup ''  '' 20 =
     Inr (ResolveResult ''  '' None ''none'' None ''Empty name provided.'')"
    by auto
  from resolve_never_raises [of demo_lookup "''offline''" 20 "''connection timed out''"] so fo
  have b: "resolve_name_to_smiles demo_lookup ''offline'' 20 =
       Inr (ResolveResult ''offline'' None ''pubchem'' None
              ''PubChem resolution error: connection timed out'')"
    by auto
  show ?thesis using a b eth by simp
qed

text \<open>The message that claim C5 names lacks the full stop of the one that the code
  returns.\<close>

theorem resolve_empty_message_counterexample:
  "resolve_name_to_smiles demo_lookup [] 20 =
     Inr (ResolveResult [] None ''none'' None ''Empty name provided.'')
   \<and> ''Empty name provided.'' \<noteq> ''Empty name provided''"
  by (simp add: resolve_name_to_smiles_def strip_def)


subsection \<open>The title banner\<close>

lemma startswith_iff: "startswith s p \<longleftrightarrow> (\<exists>r. s = p @ r)"
  unfolding startswith_def by (metis append_eq_conv_conj append_take_drop_id)

lemma digit_chars_nth: "n < 10 \<Longrightarrow> is_digit (digit_chars ! n)"
  unfolding is_digit_def by (rule nth_mem) (simp add: digit_chars_def)

lemma digit_val_nth: "n < 10 \<Longrightarrow> digit_val (digit_chars ! n) = n"
proof -
  assume "n < 10"
  then have "n \<in> {0, 1, 2, 3, 4, 5, 6, 7, 8, 9}" by auto
  then show ?thesis
    by (auto simp: digit_val_def digit_chars_def)
qed

lemma digit_val_less: "is_digit c \<Longrightarrow> digit_val c < 10"
  by (auto simp: is_digit_def digit_chars_def digit_val_def)

lemma str_nat_digits: "list_all is_digit (str_nat n)"
proof (induction n rule: str_nat.induct)
  case (1 n)
  show ?case
  proof (cases "n < 10")
    case True
    then show ?thesis by (subst str_nat.simps) (simp add: digit_chars_nth)
  next
    case False
    then show ?thesis using 1 by (subst str_nat.simps) (simp add: digit_chars_nth)
  qed
qed

lemma str_nat_not_Nil: "str_nat n \<noteq> []"
  by (subst str_nat.simps) simp

lemma nat_of_digits_snoc: "nat_of_digits (ds @ [c]) = 10 * nat_of_digits ds + digit_val c"
  by (simp add: nat_of_digits_def)

lemma nat_of_digits_str_nat: "nat_of_digits (str_nat n) = n"
proof (induction n rule: str_nat.induct)
  case (1 n)
  show ?case
  proof (cases "n < 10")
    case True
    then show ?thesis
      by (subst str_nat.simps) (simp add: nat_of_digits_def digit_val_nth)
  next
    case False
    then show ?thesis using 1
      by (subst str_nat.simps) (simp add: nat_of_digits_snoc digit_val_nth)
  qed
qed

lemma nat_of_digits_bound: "list_all is_digit ds \<Longrightarrow> nat_of_digits ds < 10 ^ length ds"
proof (induction ds rule: rev_induct)
  case Nil
  show ?case by (simp add: nat_of_digits_def)
next
  case (snoc c ds)
  then have "nat_of_digits ds < 10 ^ length ds" and "digit_val c < 10"
    by (simp_all add: digit_val_less)
  then show ?case
    by (simp add: nat_of_digits_snoc)
qed

lemma takeWhile_digits:
  "list_all is_digit ds \<Longrightarrow> \<not> is_digit c \<Longrightarrow> takeWhile is_digit (ds @ c # rest) = ds"
  by (induction ds) auto

lemma dropWhile_digits:
  "list_all is_digit ds \<Longrightarrow> \<not> is_digit c \<Longrightarrow> dropWhile is_digit (ds @ c # rest) = c # rest"
  by (induction ds) auto

text \<open>The search agrees with the pattern: at one position, and for the leftmost match.\<close>

lemma dim_at_iff: "dim_at key s ds \<longleftrightarrow> match_dim key s = Some ds"
proof
  assume "dim_at key s ds"
  then have ds: "ds \<noteq> []" "list_all is_digit ds"
    and \<open>(\<exists>r. s = key @ ''="'' @ ds @ ''"'' @ r) \<or> (\<exists>r. s = key @ ''="'' @ ds @ ''px"'' @ r)\<close>
    by (auto simp: dim_at_def startswith_iff)
  then show "match_dim key s = Some ds"
    by (auto simp: match_dim_def startswith_def takeWhile_digits dropWhile_digits is_digit_def
        digit_chars_def)
next
  assume m: "match_dim key s = Some ds"
  define r where "r = drop (length key + 2) s"
  from m have sw: \<open>startswith s (key @ ''="'')\<close> and ds: "ds = takeWhile is_digit r" "ds \<noteq> []"
    and q: \<open>startswith (dropWhile is_digit r) ''"'' \<or> startswith (dropWhile is_digit r) ''px"''\<close>
    by (auto simp: match_dim_def Let_def r_def split: if_splits)
  from sw obtain r0 where \<open>s = (key @ ''="'') @ r0\<close>
    unfolding startswith_iff by blast
  then have s: \<open>s = key @ ''="'' @ r\<close>
    by (simp add: r_def)
  have r: "r = ds @ dropWhile is_digit r"
    by (simp add: ds)
  have dg: "list_all is_digit ds"
    unfolding ds list_all_iff by (auto dest: set_takeWhileD)
  from q have \<open>(\<exists>x. dropWhile is_digit r = ''"'' @ x) \<or> (\<exists>x. dropWhile is_digit r = ''px"'' @ x)\<close>
    by (simp add: startswith_iff)
  then have \<open>(\<exists>x. s = (key @ ''="'' @ ds @ ''"'') @ x) \<or> (\<exists>x. s = (key @ ''="'' @ ds @ ''px"'') @ x)\<close>
    using s r by (metis append.assoc)
  then show "dim_at key s ds"
    using ds(2) dg unfolding dim_at_def startswith_iff by blast
qed

lemma match_dim_Nil: "match_dim key [] = None"
  by (simp add: match_dim_def startswith_def)

lemma search_dim_first:
  "match_dim key (drop i s) = Some ds \<Longrightarrow> \<forall>j<i. match_dim key (drop j s) = None
     \<Longrightarrow> search_dim key s = Some ds"
proof (induction s arbitrary: i)
  case Nil
  then show ?case by (simp add: match_dim_Nil)
next
  case (Cons c cs)
  show ?case
  proof (cases i)
    case 0
    then show ?thesis using Cons.prems(1) by simp
  next
    case (Suc k)
    have "match_dim key (c # cs) = None"
      using Cons.prems(2) [rule_format, of 0] Suc by simp
    moreover have "search_dim key cs = Some ds"
    proof (rule Cons.IH [of k])
      show "match_dim key (drop k cs) = Some ds"
        using Cons.prems(1) Suc by simp
      show "\<forall>j<k. match_dim key (drop j cs) = None"
        using Cons.prems(2) Suc by (auto dest: spec [of _ "Suc j" for j])
    qed
    ultimately show ?thesis by simp
  qed
qed

lemma search_dim_None: "\<forall>j. match_dim key (drop j s) = None \<Longrightarrow> search_dim key s = None"
proof (induction s)
  case Nil
  show ?case by simp
next
  case (Cons c cs)
  have "match_dim key (c # cs) = None"
    using Cons.prems [rule_format, of 0] by simp
  moreover have "\<forall>j. match_dim key (drop j cs) = None"
    using Cons.prems by (auto dest: spec [of _ "Suc j" for j])
  ultimately show ?case using Cons.IH by simp
qed

lemma search_dim_SomeD:
  "search_dim key s = Some ds \<Longrightarrow>
     \<exists>i. match_dim key (drop i s) = Some ds \<and> (\<forall>j<i. match_dim key (drop j s) = None)"
proof (induction s)
  case Nil
  then show ?case by simp
next
  case (Cons c cs)
  show ?case
  proof (cases "match_dim key (c # cs)")
    case (Some d)
    then have "match_dim key (drop 0 (c # cs)) = Some ds"
      using Cons.prems by simp
    then show ?thesis by (intro exI [of _ 0]) simp
  next
    case None
    then have "search_dim key cs = Some ds"
      using Cons.prems by simp
    then obtain i where i: "match_dim key (drop i cs) = Some ds"
        "\<forall>j<i. match_dim key (drop j cs) = None"
      using Cons.IH by blast
    have "\<forall>j<Suc i. match_dim key (drop j (c # cs)) = None"
    proof (intro allI impI)
      fix j assume "j < Suc i"
      then show "match_dim key (drop j (c # cs)) = None"
        using None i(2) by (cases j) auto
    qed
    then show ?thesis using i(1) by (intro exI [of _ "Suc i"]) simp
  qed
qed

lemma match_dim_other:
  "c \<noteq> hd key \<Longrightarrow> key \<noteq> [] \<Longrightarrow> match_dim key (c # cs) = None"
  by (cases key) (auto simp: match_dim_def startswith_def)

lemma search_dim_skip:
  "key \<noteq> [] \<Longrightarrow> \<forall>c\<in>set ds. c \<noteq> hd key \<Longrightarrow> search_dim key (ds @ rest) = search_dim key rest"
  by (induction ds) (auto simp: match_dim_other)

lemma digit_not_letter: "is_digit c \<Longrightarrow> c \<noteq> CHR ''h'' \<and> c \<noteq> CHR ''w''"
  by (auto simp: is_digit_def digit_chars_def)

lemma search_dim_digits:
  "list_all is_digit ds \<Longrightarrow> search_dim ''height'' (ds @ rest) = search_dim ''height'' rest"
  by (rule search_dim_skip; auto simp: list_all_iff dest: digit_not_letter)+

lemma match_dim_here:
  \<open>list_all is_digit ds \<Longrightarrow> ds \<noteq> [] \<Longrightarrow>
     match_dim key (key @ ''="'' @ ds @ ''"'' @ rest) = Some ds\<close>
  by (simp add: match_dim_def startswith_def takeWhile_digits dropWhile_digits is_digit_def
      digit_chars_def)

lemma search_height_header:
  \<open>list_all is_digit ws \<Longrightarrow> list_all is_digit hs \<Longrightarrow> hs \<noteq> [] \<Longrightarrow>
   search_dim ''height''
     (''<svg xmlns="http://www.w3.org/2000/svg" width="'' @ ws @ ''" height="'' @ hs @ ''"'' @ rest)
   = Some hs\<close>
proof -
  assume ws: "list_all is_digit ws" and hs: "list_all is_digit hs" "hs \<noteq> []"
  have a: \<open>search_dim ''height'' (''<svg xmlns="http://www.w3.org/2000/svg" width="'' @ X)
      = search_dim ''height'' X\<close> for X
    by (simp add: match_dim_def startswith_def)
  have b: \<open>search_dim ''height'' (''" '' @ X) = search_dim ''height'' X\<close> for X
    by (simp add: match_dim_def startswith_def)
  have c: \<open>search_dim ''height'' (''height="'' @ hs @ ''"'' @ rest) = Some hs\<close>
    using match_dim_here [OF hs, of "''height''" rest] by simp
  have \<open>search_dim ''height''
     (''<svg xmlns="http://www.w3.org/2000/svg" width="'' @ ws @ ''" height="'' @ hs @ ''"'' @ rest)
     = search_dim ''height'' (ws @ ''" '' @ ''height="'' @ hs @ ''"'' @ rest)\<close>
    by (subst a) simp
  also have \<open>\<dots> = search_dim ''height'' (''" '' @ ''height="'' @ hs @ ''"'' @ rest)\<close>
    by (rule search_dim_digits [OF ws])
  also have \<open>\<dots> = Some hs\<close>
    by (subst b) (rule c)
  finally show ?thesis .
qed

text \<open>\<^verbatim>\<open>str.find\<close> returns -1 exactly when the text occurs nowhere.\<close>

lemma find_from_range: "find_from i s p = - 1 \<or> int i \<le> find_from i s p"
  by (induction s arbitrary: i) (auto, force)

lemma find_from_none:
  "find_from i s p = - 1 \<longleftrightarrow> (\<forall>j. \<not> startswith (drop j s) p)"
proof (induction s arbitrary: i)
  case Nil
  show ?case by (auto simp: startswith_def)
next
  case (Cons c cs)
  show ?case
  proof (cases "startswith (c # cs) p")
    case True
    then have "\<not> (\<forall>j. \<not> startswith (drop j (c # cs)) p)"
      by (auto intro: exI [of _ 0])
    then show ?thesis using True by simp
  next
    case False
    have "(\<forall>j. \<not> startswith (drop j (c # cs)) p) \<longleftrightarrow> (\<forall>j. \<not> startswith (drop j cs) p)"
    proof
      assume a: "\<forall>j. \<not> startswith (drop j (c # cs)) p"
      show "\<forall>j. \<not> startswith (drop j cs) p"
      proof
        fix j show "\<not> startswith (drop j cs) p" using a [rule_format, of "Suc j"] by simp
      qed
    next
      assume a: "\<forall>j. \<not> startswith (drop j cs) p"
      show "\<forall>j. \<not> startswith (drop j (c # cs)) p"
      proof
        fix j show "\<not> startswith (drop j (c # cs)) p" using a False by (cases j) auto
      qed
    qed
    then show ?thesis using False Cons.IH [of "Suc i"] by simp
  qed
qed

lemma str_find_none: "str_find s p = - 1 \<longleftrightarrow> (\<forall>j. \<not> startswith (drop j s) p)"
  by (simp add: str_find_def find_from_none)

text \<open>The two substitutions on a markup that begins with a declaration, and on one that
  does not.\<close>

lemma not_space_lt: "\<not> is_space (CHR ''<'')"
  by (simp add: is_space_def)

lemma dropWhile_space_keep: "r = [] \<or> \<not> is_space (hd r) \<Longrightarrow> dropWhile is_space r = r"
  by (cases r) auto

lemma sub_xml_declaration_decl:
  assumes "\<forall>c\<in>set sp1. is_space c" and "\<forall>c\<in>set sp2. is_space c" and "CHR ''>'' \<notin> set b"
    and "r = [] \<or> \<not> is_space (hd r)"
  shows "sub_xml_declaration (sp1 @ ''<?xml'' @ b @ ''?>'' @ sp2 @ r) = r"
proof -
  have 1: "dropWhile is_space (sp1 @ ''<?xml'' @ b @ ''?>'' @ sp2 @ r) = ''<?xml'' @ b @ ''?>'' @ sp2 @ r"
    using assms(1) by (simp add: dropWhile_append2 not_space_lt)
  have 2: "takeWhile (\<lambda>c. c \<noteq> CHR ''>'') (b @ ''?>'' @ sp2 @ r) = b @ ''?''"
    using assms(3) by (subst takeWhile_append2) auto
  have 3: "dropWhile (\<lambda>c. c \<noteq> CHR ''>'') (b @ ''?>'' @ sp2 @ r) = ''>'' @ sp2 @ r"
    using assms(3) by (subst dropWhile_append2) auto
  have 4: "dropWhile is_space (sp2 @ r) = r"
    using assms(2,4) by (simp add: dropWhile_append2 dropWhile_space_keep)
  have 5: "drop 5 (''<?xml'' @ b @ ''?>'' @ sp2 @ r) = b @ ''?>'' @ sp2 @ r"
    by simp
  have 6: "startswith (''<?xml'' @ b @ ''?>'' @ sp2 @ r) ''<?xml''"
    by (simp add: startswith_def)
  show ?thesis
    unfolding sub_xml_declaration_def Let_def 1 5 2 3 using 4 6 by simp
qed

lemma sub_doctype_decl:
  assumes "\<forall>c\<in>set sp1. is_space c" and "\<forall>c\<in>set sp2. is_space c" and "CHR ''>'' \<notin> set b"
    and "r = [] \<or> \<not> is_space (hd r)"
  shows "sub_doctype (sp1 @ ''<!DOCTYPE'' @ b @ ''>'' @ sp2 @ r) = r"
proof -
  have 1: "dropWhile is_space (sp1 @ ''<!DOCTYPE'' @ b @ ''>'' @ sp2 @ r) =
      ''<!DOCTYPE'' @ b @ ''>'' @ sp2 @ r"
    using assms(1) by (simp add: dropWhile_append2 not_space_lt)
  have 3: "dropWhile (\<lambda>c. c \<noteq> CHR ''>'') (b @ ''>'' @ sp2 @ r) = ''>'' @ sp2 @ r"
    using assms(3) by (subst dropWhile_append2) auto
  have 4: "dropWhile is_space (sp2 @ r) = r"
    using assms(2,4) by (simp add: dropWhile_append2 dropWhile_space_keep)
  have 5: "drop 9 (''<!DOCTYPE'' @ b @ ''>'' @ sp2 @ r) = b @ ''>'' @ sp2 @ r"
    by simp
  have 6: "startswith (''<!DOCTYPE'' @ b @ ''>'' @ sp2 @ r) ''<!DOCTYPE''"
    by (simp add: startswith_def)
  show ?thesis
    unfolding sub_doctype_def Let_def 1 5 3 using 4 6 by simp
qed

lemma sub_xml_declaration_other:
  "\<not> startswith (dropWhile is_space s) ''<?xml'' \<Longrightarrow> sub_xml_declaration s = s"
  by (simp add: sub_xml_declaration_def)

lemma sub_doctype_other:
  "\<not> startswith (dropWhile is_space s) ''<!DOCTYPE'' \<Longrightarrow> sub_doctype s = s"
  by (simp add: sub_doctype_def)

lemma inner_of_markup:
  assumes svg: "svg = xml @ doctype @ inner"
    and xml: "xml = [] \<or> xml = sp1 @ ''<?xml'' @ b1 @ ''?>'' @ sp2"
    and doctype: "doctype = [] \<or> doctype = sp3 @ ''<!DOCTYPE'' @ b2 @ ''>'' @ sp4"
    and spaces: "\<forall>c\<in>set (sp1 @ sp2 @ sp3 @ sp4). is_space c"
    and bodies: "CHR ''>'' \<notin> set (b1 @ b2)"
    and inner: "startswith inner ''<svg''"
  shows "sub_doctype (sub_xml_declaration svg) = inner"
proof -
  from inner obtain r0 where r0: "inner = ''<svg'' @ r0"
    unfolding startswith_iff by blast
  have keep: "inner = [] \<or> \<not> is_space (hd inner)"
    by (simp add: r0 not_space_lt)
  have i1: "sub_xml_declaration inner = inner"
    by (rule sub_xml_declaration_other) (simp add: r0 startswith_def not_space_lt)
  have i2: "sub_doctype inner = inner"
    by (rule sub_doctype_other) (simp add: r0 startswith_def not_space_lt)
  have d1: "sub_xml_declaration (sp3 @ ''<!DOCTYPE'' @ b2 @ ''>'' @ sp4 @ inner) =
      sp3 @ ''<!DOCTYPE'' @ b2 @ ''>'' @ sp4 @ inner"
    using spaces
    by (intro sub_xml_declaration_other) (simp add: dropWhile_append2 not_space_lt startswith_def)
  have d2: "sub_doctype (sp3 @ ''<!DOCTYPE'' @ b2 @ ''>'' @ sp4 @ inner) = inner"
    using spaces bodies keep by (intro sub_doctype_decl) auto
  have x1: "sub_xml_declaration (sp1 @ ''<?xml'' @ b1 @ ''?>'' @ sp2 @ inner) = inner"
    using spaces bodies keep by (intro sub_xml_declaration_decl) auto
  have x2: "sub_xml_declaration
      (sp1 @ ''<?xml'' @ b1 @ ''?>'' @ (sp2 @ sp3) @ (''<!DOCTYPE'' @ b2 @ ''>'' @ sp4 @ inner)) =
      ''<!DOCTYPE'' @ b2 @ ''>'' @ sp4 @ inner"
    using spaces bodies by (intro sub_xml_declaration_decl) (auto simp: not_space_lt)
  have d3: "sub_doctype ([] @ ''<!DOCTYPE'' @ b2 @ ''>'' @ sp4 @ inner) = inner"
    using spaces bodies keep by (intro sub_doctype_decl) auto
  from xml doctype show ?thesis
  proof (elim disjE)
    assume "xml = []" "doctype = []"
    then show ?thesis by (simp add: svg i1 i2)
  next
    assume "xml = []" "doctype = sp3 @ ''<!DOCTYPE'' @ b2 @ ''>'' @ sp4"
    then show ?thesis using d1 d2 by (simp add: svg)
  next
    assume "xml = sp1 @ ''<?xml'' @ b1 @ ''?>'' @ sp2" "doctype = []"
    then show ?thesis using x1 i2 by (simp add: svg)
  next
    assume "xml = sp1 @ ''<?xml'' @ b1 @ ''?>'' @ sp2"
      "doctype = sp3 @ ''<!DOCTYPE'' @ b2 @ ''>'' @ sp4"
    then show ?thesis using x2 d3 by (simp add: svg)
  qed
qed

lemma str_int_nonneg: "0 \<le> i \<Longrightarrow> str_int i = str_nat (nat i)"
  by (simp add: str_int_def)

text \<open>The size that the code takes from the markup, from what the pattern says.\<close>

lemma declared_size:
  assumes "(dim_at key (drop i svg) ds \<and> (\<forall>j<i. \<forall>d. \<not> dim_at key (drop j svg) d)
              \<and> length ds \<le> 15 \<and> n = int (nat_of_digits ds))
           \<or> ((\<forall>j d. \<not> dim_at key (drop j svg) d) \<and> P \<and> n = dflt)"
    and "0 \<le> dflt" and "dflt < 2 ^ 53"
  shows "(case search_dim key svg of Some ds \<Rightarrow> int (nat_of_digits ds) | None \<Rightarrow> dflt) = n
         \<and> 0 \<le> n \<and> n < 2 ^ 53"
  using assms(1)
proof (elim disjE conjE)
  assume a: "dim_at key (drop i svg) ds" "\<forall>j<i. \<forall>d. \<not> dim_at key (drop j svg) d"
    and len: "length ds \<le> 15" and n: "n = int (nat_of_digits ds)"
  have "search_dim key svg = Some ds"
  proof (rule search_dim_first [of key i])
    show "match_dim key (drop i svg) = Some ds"
      using a(1) by (simp add: dim_at_iff)
    show "\<forall>j<i. match_dim key (drop j svg) = None"
    proof (intro allI impI)
      fix j assume "j < i"
      then have "\<forall>d. match_dim key (drop j svg) \<noteq> Some d"
        using a(2) by (simp add: dim_at_iff)
      then show "match_dim key (drop j svg) = None"
        by (cases "match_dim key (drop j svg)") auto
    qed
  qed
  moreover have "nat_of_digits ds < 2 ^ 53"
  proof -
    have "list_all is_digit ds"
      using a(1) by (simp add: dim_at_def)
    then have "nat_of_digits ds < 10 ^ length ds"
      by (rule nat_of_digits_bound)
    also have "(10::nat) ^ length ds \<le> 10 ^ 15"
      using len by (intro power_increasing) simp_all
    also have "(10::nat) ^ 15 < 2 ^ 53"
      by simp
    finally show ?thesis .
  qed
  then have "int (nat_of_digits ds) < 2 ^ 53"
    by (metis of_nat_less_iff of_nat_numeral of_nat_power)
  ultimately show ?thesis by (simp add: n)
next
  assume a: "\<forall>j d. \<not> dim_at key (drop j svg) d" and n: "n = dflt"
  have "search_dim key svg = None"
  proof (rule search_dim_None, rule allI)
    fix j
    have "\<forall>d. match_dim key (drop j svg) \<noteq> Some d"
      using a by (simp add: dim_at_iff)
    then show "match_dim key (drop j svg) = None"
      by (cases "match_dim key (drop j svg)") auto
  qed
  then show ?thesis using assms(2,3) by (simp add: n)
qed

text \<open>
  Claim C6, as the code has it. The markup is taken to be an optional XML declaration, an
  optional document type and then the \<^verbatim>\<open>svg\<close> element, and the title not to be empty
  after trimming. The width \<open>w\<close> is the number in the leftmost \<^verbatim>\<open>width="N"\<close> or
  \<^verbatim>\<open>width="Npx"\<close> of the markup, with \<open>N\<close> of at most 15 digits, or it is 1500 when
  the markup has no such text and no \<^verbatim>\<open>width='\<close> either; the height \<open>h\<close> is read in
  the same way, with 1000 in place of 1500. Then the result is exactly the outer element
  below: its width is \<open>w\<close> and its height \<open>h + 70\<close>, which is also what the pattern
  reads back from it; the title stands in a \<^verbatim>\<open>text\<close> element anchored in the middle at
  the horizontal position \<open>w / 2\<close> and the vertical position 45.5; and the \<^verbatim>\<open>svg\<close>
  element of the markup stands unchanged in a group translated by 70. For every title
  that is empty after trimming, and for every markup in which \<^verbatim>\<open><svg\<close> does not occur,
  the markup is returned as it is.

  The pattern asks for double quotes. A markup that gives its sizes in single quotes, as
  that of RDKit does, is outside this statement.
\<close>

theorem inject_svg_title_wraps:
  assumes title: "strip title \<noteq> []"
    and svg: "svg = xml @ doctype @ inner"
    and xml: "xml = [] \<or> xml = sp1 @ ''<?xml'' @ b1 @ ''?>'' @ sp2"
    and doctype: "doctype = [] \<or> doctype = sp3 @ ''<!DOCTYPE'' @ b2 @ ''>'' @ sp4"
    and spaces: "\<forall>c\<in>set (sp1 @ sp2 @ sp3 @ sp4). is_space c"
    and bodies: "CHR ''>'' \<notin> set (b1 @ b2)"
    and inner: "startswith inner ''<svg''"
    and width:
      "(dim_at ''width'' (drop iw svg) dw \<and> (\<forall>j<iw. \<forall>d. \<not> dim_at ''width'' (drop j svg) d)
          \<and> length dw \<le> 15 \<and> w = int (nat_of_digits dw))
       \<or> ((\<forall>j d. \<not> dim_at ''width'' (drop j svg) d)
          \<and> (\<forall>j. \<not> startswith (drop j svg) (''width='' @ [CHR 0x27])) \<and> w = 1500)"
    and height:
      "(dim_at ''height'' (drop ih svg) dh \<and> (\<forall>j<ih. \<forall>d. \<not> dim_at ''height'' (drop j svg) d)
          \<and> length dh \<le> 15 \<and> h = int (nat_of_digits dh))
       \<or> ((\<forall>j d. \<not> dim_at ''height'' (drop j svg) d)
          \<and> (\<forall>j. \<not> startswith (drop j svg) (''height='' @ [CHR 0x27])) \<and> h = 1000)"
  shows \<open>inject_svg_title ff svg title 70 =
            Inr (''<svg xmlns="http://www.w3.org/2000/svg" width="'' @ str_int w
                   @ ''" height="'' @ str_int (h + 70)
                   @ ''" viewBox="0 0 '' @ str_int w @ '' '' @ str_int (h + 70) @ ''">''
                   @ [CHR 0x0A]
                 @ ''  <text x="'' @ str_int (w div 2) @ (if even w then ''.0'' else ''.5'')
                   @ ''" y="45.5" text-anchor="middle" font-size="28" font-family="Arial">''
                   @ title @ ''</text>'' @ [CHR 0x0A]
                 @ ''  <g transform="translate(0,70)">'' @ [CHR 0x0A]
                 @ ''    '' @ inner @ [CHR 0x0A]
                 @ ''  </g>'' @ [CHR 0x0A]
                 @ ''</svg>'' @ [CHR 0x0A])
         \<and> (\<exists>k. dim_at ''height'' (drop k (projr (inject_svg_title ff svg title 70)))
                   (str_int (h + 70))
                \<and> (\<forall>j<k. \<forall>d. \<not> dim_at ''height''
                                   (drop j (projr (inject_svg_title ff svg title 70))) d))
         \<and> (strip t = [] \<longrightarrow> inject_svg_title ff s t e = Inr s)
         \<and> ((\<forall>j. \<not> startswith (drop j s) ''<svg'') \<longrightarrow> inject_svg_title ff s t e = Inr s)\<close>
proof -
  have sw: "(case search_dim ''width'' svg of Some ds \<Rightarrow> int (nat_of_digits ds) | None \<Rightarrow> 1500) = w
      \<and> 0 \<le> w \<and> w < 2 ^ 53"
    by (rule declared_size [OF width]) simp_all
  have sh: "(case search_dim ''height'' svg of Some ds \<Rightarrow> int (nat_of_digits ds) | None \<Rightarrow> 1000) = h
      \<and> 0 \<le> h \<and> h < 2 ^ 53"
    by (rule declared_size [OF height]) simp_all
  have w0: "0 \<le> w" and h0: "0 \<le> h"
    using sw sh by simp_all
  have inn: "sub_doctype (sub_xml_declaration svg) = inner"
    by (rule inner_of_markup [OF svg xml doctype spaces bodies inner])
  have "startswith (drop (length (xml @ doctype)) svg) ''<svg''"
    using inner by (simp add: svg)
  then have tag: "str_find svg ''<svg'' \<noteq> - 1"
    unfolding str_find_none by blast
  have fh: "format_half ff w = Inr (str_int (w div 2) @ (if even w then ''.0'' else ''.5''))"
    using sw by (simp add: format_half_def)
  have ft: "format_times_065 ff 70 = Inr ''45.5''"
    by (simp add: format_times_065_def)
  have s70: "str_int 70 = ''70''"
    by code_simp
  have eq: \<open>inject_svg_title ff svg title 70 =
            Inr (''<svg xmlns="http://www.w3.org/2000/svg" width="'' @ str_int w
                   @ ''" height="'' @ str_int (h + 70)
                   @ ''" viewBox="0 0 '' @ str_int w @ '' '' @ str_int (h + 70) @ ''">''
                   @ [CHR 0x0A]
                 @ ''  <text x="'' @ str_int (w div 2) @ (if even w then ''.0'' else ''.5'')
                   @ ''" y="45.5" text-anchor="middle" font-size="28" font-family="Arial">''
                   @ title @ ''</text>'' @ [CHR 0x0A]
                 @ ''  <g transform="translate(0,70)">'' @ [CHR 0x0A]
                 @ ''    '' @ inner @ [CHR 0x0A]
                 @ ''  </g>'' @ [CHR 0x0A]
                 @ ''</svg>'' @ [CHR 0x0A])\<close>
    using title tag
    unfolding inject_svg_title_def Let_def sw [THEN conjunct1] sh [THEN conjunct1] inn fh ft s70
    by simp
  have stw: "str_int w = str_nat (nat w)" and sth: "str_int (h + 70) = str_nat (nat (h + 70))"
    using w0 h0 by (simp_all add: str_int_nonneg)
  define rest where
    \<open>rest = '' viewBox="0 0 '' @ str_int w @ '' '' @ str_int (h + 70) @ ''">'' @ [CHR 0x0A]
            @ ''  <text x="'' @ str_int (w div 2) @ (if even w then ''.0'' else ''.5'')
              @ ''" y="45.5" text-anchor="middle" font-size="28" font-family="Arial">''
              @ title @ ''</text>'' @ [CHR 0x0A]
            @ ''  <g transform="translate(0,70)">'' @ [CHR 0x0A]
            @ ''    '' @ inner @ [CHR 0x0A]
            @ ''  </g>'' @ [CHR 0x0A]
            @ ''</svg>'' @ [CHR 0x0A]\<close>
  have eq_h: \<open>projr (inject_svg_title ff svg title 70) =
      ''<svg xmlns="http://www.w3.org/2000/svg" width="'' @ str_nat (nat w)
        @ ''" height="'' @ str_nat (nat (h + 70)) @ ''"'' @ rest\<close>
    by (simp add: eq rest_def stw sth)
  have "search_dim ''height'' (projr (inject_svg_title ff svg title 70)) =
      Some (str_nat (nat (h + 70)))"
    unfolding eq_h
    by (rule search_height_header) (simp_all add: str_nat_digits str_nat_not_Nil)
  then obtain k where k:
      "match_dim ''height'' (drop k (projr (inject_svg_title ff svg title 70))) =
         Some (str_nat (nat (h + 70)))"
      "\<forall>j<k. match_dim ''height'' (drop j (projr (inject_svg_title ff svg title 70))) = None"
    using search_dim_SomeD by blast
  have reread: "\<exists>k. dim_at ''height'' (drop k (projr (inject_svg_title ff svg title 70)))
                   (str_int (h + 70))
                \<and> (\<forall>j<k. \<forall>d. \<not> dim_at ''height''
                                   (drop j (projr (inject_svg_title ff svg title 70))) d)"
    using k by (intro exI [of _ k]) (simp add: dim_at_iff sth)
  have g1: "strip t = [] \<longrightarrow> inject_svg_title ff s t e = Inr s"
    by (simp add: inject_svg_title_def)
  have g2: "(\<forall>j. \<not> startswith (drop j s) ''<svg'') \<longrightarrow> inject_svg_title ff s t e = Inr s"
    by (simp add: inject_svg_title_def str_find_none)
  show ?thesis
    by (intro conjI) (rule eq reread g1 g2)+
qed

theorem inject_svg_title_wraps_witness:
  \<open>inject_svg_title demo_float_format
       ''<?xml version="1.0"?> <svg width="1650px" height="900px"></svg>'' ''Panel 001'' 70 =
     Inr (''<svg xmlns="http://www.w3.org/2000/svg" width="1650" height="970" viewBox="0 0 1650 970">''
            @ [CHR 0x0A]
          @ ''  <text x="825.0" y="45.5" text-anchor="middle" font-size="28" font-family="Arial">''
            @ ''Panel 001</text>'' @ [CHR 0x0A]
          @ ''  <g transform="translate(0,70)">'' @ [CHR 0x0A]
          @ ''    <svg width="1650px" height="900px"></svg>'' @ [CHR 0x0A]
          @ ''  </g>'' @ [CHR 0x0A]
          @ ''</svg>'' @ [CHR 0x0A])
   \<and> inject_svg_title demo_float_format ''<svg width="300" height="100"></svg>''
         [CHR '' '', CHR 0x09] 70 = Inr ''<svg width="300" height="100"></svg>''
   \<and> inject_svg_title demo_float_format ''no markup'' ''Panel 001'' 70 = Inr ''no markup''\<close>
proof -
  define svg where \<open>svg = ''<?xml version="1.0"?> <svg width="1650px" height="900px"></svg>''\<close>
  have t: "strip ''Panel 001'' \<noteq> []"
    by code_simp
  have shape: \<open>svg = (''<?xml version="1.0"?> '') @ [] @ ''<svg width="1650px" height="900px"></svg>''\<close>
    by (simp add: svg_def)
  have xml: \<open>''<?xml version="1.0"?> '' = [] \<or>
      ''<?xml version="1.0"?> '' = [] @ ''<?xml'' @ '' version="1.0"'' @ ''?>'' @ '' ''\<close>
    by simp
  have doctype: \<open>([] :: string) = [] \<or> [] = [] @ ''<!DOCTYPE'' @ [] @ ''>'' @ []\<close>
    by simp
  have spaces: "\<forall>c\<in>set ([] @ '' '' @ [] @ []). is_space c"
    by (simp add: is_space_def)
  have bodies: \<open>CHR ''>'' \<notin> set ('' version="1.0"'' @ [])\<close>
    by simp
  have inner: \<open>startswith ''<svg width="1650px" height="900px"></svg>'' ''<svg''\<close>
    by code_simp
  have w1: "dim_at ''width'' (drop 27 svg) ''1650''"
    unfolding svg_def by code_simp
  have "list_all (\<lambda>j. match_dim ''width'' (drop j svg) = None) [0..<27]"
    unfolding svg_def by code_simp
  then have w2: "\<forall>j<27. \<forall>d. \<not> dim_at ''width'' (drop j svg) d"
    by (simp add: list_all_iff dim_at_iff)
  have h1: "dim_at ''height'' (drop 42 svg) ''900''"
    unfolding svg_def by code_simp
  have "list_all (\<lambda>j. match_dim ''height'' (drop j svg) = None) [0..<42]"
    unfolding svg_def by code_simp
  then have h2: "\<forall>j<42. \<forall>d. \<not> dim_at ''height'' (drop j svg) d"
    by (simp add: list_all_iff dim_at_iff)
  have nw: "(1650::int) = int (nat_of_digits ''1650'')" and nh: "(900::int) = int (nat_of_digits ''900'')"
    by code_simp+
  have width:
      "(dim_at ''width'' (drop 27 svg) ''1650'' \<and> (\<forall>j<27. \<forall>d. \<not> dim_at ''width'' (drop j svg) d)
          \<and> length ''1650'' \<le> 15 \<and> 1650 = int (nat_of_digits ''1650''))
       \<or> ((\<forall>j d. \<not> dim_at ''width'' (drop j svg) d)
          \<and> (\<forall>j. \<not> startswith (drop j svg) (''width='' @ [CHR 0x27])) \<and> (1650::int) = 1500)"
    using w1 w2 nw by simp
  have height:
      "(dim_at ''height'' (drop 42 svg) ''900'' \<and> (\<forall>j<42. \<forall>d. \<not> dim_at ''height'' (drop j svg) d)
          \<and> length ''900'' \<le> 15 \<and> 900 = int (nat_of_digits ''900''))
       \<or> ((\<forall>j d. \<not> dim_at ''height'' (drop j svg) d)
          \<and> (\<forall>j. \<not> startswith (drop j svg) (''height='' @ [CHR 0x27])) \<and> (900::int) = 1000)"
    using h1 h2 nh by simp
  have blank: "strip [CHR '' '', CHR 0x09] = []"
    by code_simp
  have "str_find ''no markup'' ''<svg'' = - 1"
    by code_simp
  then have absent: "\<forall>j. \<not> startswith (drop j ''no markup'') ''<svg''"
    by (simp add: str_find_none)
  have n1: "str_int 1650 = ''1650''" and n2: "str_int (900 + 70) = ''970''"
    and n3: "str_int (1650 div 2) = ''825''"
    by code_simp+
  note x = inject_svg_title_wraps [OF t shape xml doctype spaces bodies inner width height,
      where ff = demo_float_format]
  have c1: \<open>inject_svg_title demo_float_format svg ''Panel 001'' 70 =
     Inr (''<svg xmlns="http://www.w3.org/2000/svg" width="1650" height="970" viewBox="0 0 1650 970">''
            @ [CHR 0x0A]
          @ ''  <text x="825.0" y="45.5" text-anchor="middle" font-size="28" font-family="Arial">''
            @ ''Panel 001</text>'' @ [CHR 0x0A]
          @ ''  <g transform="translate(0,70)">'' @ [CHR 0x0A]
          @ ''    <svg width="1650px" height="900px"></svg>'' @ [CHR 0x0A]
          @ ''  </g>'' @ [CHR 0x0A]
          @ ''</svg>'' @ [CHR 0x0A])\<close>
    unfolding x [THEN conjunct1] n1 n2 n3 by simp
  have c2: \<open>inject_svg_title demo_float_format ''<svg width="300" height="100"></svg>''
         [CHR '' '', CHR 0x09] 70 = Inr ''<svg width="300" height="100"></svg>''\<close>
    by (rule mp [OF x [where t = "[CHR '' '', CHR 0x09]"
          and s = \<open>''<svg width="300" height="100"></svg>''\<close> and e = 70,
          THEN conjunct2, THEN conjunct2, THEN conjunct1] blank])
  have c3: "inject_svg_title demo_float_format ''no markup'' ''Panel 001'' 70 = Inr ''no markup''"
    by (rule mp [OF x [where t = "''Panel 001''" and s = "''no markup''" and e = 70,
          THEN conjunct2, THEN conjunct2, THEN conjunct2] absent])
  show ?thesis
    using c1 c2 c3 unfolding svg_def by (intro conjI)
qed

text \<open>A title of one space is not empty, and the markup comes back unchanged, with
  the height it had: the height 100 stays 100.\<close>

theorem inject_svg_title_blank_title_counterexample:
  \<open>'' '' \<noteq> []
   \<and> inject_svg_title demo_float_format ''<svg width="300" height="100"></svg>'' '' '' 70 =
       Inr ''<svg width="300" height="100"></svg>''
   \<and> dim_at ''height'' (drop 17 ''<svg width="300" height="100"></svg>'') ''100''\<close>
  by code_simp

subsection \<open>Paths\<close>

lemma split_char_not_Nil: "split_char sep s \<noteq> []"
  by (induction s) (auto split: list.splits)

lemma split_char_no_sep: "sep \<notin> set s \<Longrightarrow> split_char sep s = [s]"
  by (induction s) auto

lemma split_char_parts: "x \<in> set (split_char sep s) \<Longrightarrow> sep \<notin> set x"
proof (induction s arbitrary: x)
  case Nil
  then show ?case by simp
next
  case (Cons c cs)
  show ?case
  proof (cases "c = sep")
    case True
    then show ?thesis using Cons by auto
  next
    case False
    obtain w ws where w: "split_char sep cs = w # ws"
      using split_char_not_Nil [of sep cs] by (cases "split_char sep cs") auto
    then show ?thesis using Cons False by auto
  qed
qed

lemma split_char_cons: "sep \<notin> set x \<Longrightarrow> split_char sep (x @ sep # s) = x # split_char sep s"
  by (induction x) auto

lemma join_Cons: "T \<noteq> [] \<Longrightarrow> join sep (x # T) = x @ sep @ join sep T"
  by (cases T) auto

lemma join_append:
  "T \<noteq> [] \<Longrightarrow> U \<noteq> [] \<Longrightarrow> join sep (T @ U) = join sep T @ sep @ join sep U"
proof (induction T)
  case Nil
  then show ?case by simp
next
  case (Cons x T)
  show ?case
  proof (cases "T = []")
    case True
    then show ?thesis using Cons.prems by (simp add: join_Cons)
  next
    case False
    then show ?thesis using Cons by (simp add: join_Cons)
  qed
qed

lemma join_snoc: "T \<noteq> [] \<Longrightarrow> join sep (T @ [n]) = join sep T @ sep @ n"
  by (simp add: join_append)

lemma length_join_take: "length (join sep (take k T)) \<le> length (join sep T)"
proof (cases "take k T = [] \<or> drop k T = []")
  case True
  then show ?thesis by auto
next
  case False
  then have "join sep (take k T @ drop k T) = join sep (take k T) @ sep @ join sep (drop k T)"
    by (intro join_append) auto
  then have "length (join sep (take k T @ drop k T)) =
      length (join sep (take k T)) + length sep + length (join sep (drop k T))"
    by simp
  then show ?thesis by (simp only: append_take_drop_id)
qed

lemma split_join:
  "T \<noteq> [] \<Longrightarrow> \<forall>x\<in>set T. CHR ''/'' \<notin> set x \<Longrightarrow> split_char (CHR ''/'') (join ''/'' T) = T"
proof (induction T)
  case Nil
  then show ?case by simp
next
  case (Cons x T)
  show ?case
  proof (cases "T = []")
    case True
    then show ?thesis using Cons.prems by (simp add: split_char_no_sep)
  next
    case False
    then have "split_char (CHR ''/'') (join ''/'' T) = T"
      using Cons by simp
    then show ?thesis
      using False Cons.prems split_char_cons [of "CHR ''/''" x "join ''/'' T"]
      by (simp add: join_Cons)
  qed
qed

lemma join_first:
  assumes "T \<noteq> []" and "list_all simple_name T"
  shows "\<exists>c r. join ''/'' T = c # r \<and> c \<noteq> CHR ''/''"
proof -
  obtain x T' where T: "T = x # T'"
    using assms(1) by (cases T) auto
  obtain c r where "x = c # r" "c \<noteq> CHR ''/''"
    using assms(2) T by (cases x) (auto simp: simple_name_def)
  then show ?thesis
    using T by (cases "T' = []") (auto simp: join_Cons)
qed

lemma wf_path_Path: "wf_path (Path s)"
  by (auto simp: wf_path_def Path_def Let_def list_all_iff simple_name_def dest: split_char_parts)

lemma Path_simple: "simple_name n \<Longrightarrow> Path n = \<lparr>root = [], tail = [n]\<rparr>"
  by (cases n) (auto simp: Path_def simple_name_def startswith_def split_char_no_sep)

lemma path_join_simple: "simple_name n \<Longrightarrow> path_join p n = p\<lparr>tail := tail p @ [n]\<rparr>"
  by (simp add: path_join_def Path_simple)

lemma wf_path_join: "wf_path p \<Longrightarrow> simple_name n \<Longrightarrow> wf_path (path_join p n)"
  by (simp add: path_join_simple wf_path_def)

lemma parent_path_join: "simple_name n \<Longrightarrow> parent (path_join p n) = p"
  by (simp add: path_join_simple parent_def)

text \<open>\<^verbatim>\<open>Path(str(p))\<close> is \<open>p\<close> again.\<close>

lemma Path_path_str:
  assumes "wf_path p" and "tail p \<noteq> []"
  shows "Path (path_str p) = p"
proof -
  obtain c r where cr: "join ''/'' (tail p) = c # r" "c \<noteq> CHR ''/''"
    using join_first [of "tail p"] assms by (auto simp: wf_path_def)
  have parts: "\<forall>x\<in>set (tail p). CHR ''/'' \<notin> set x"
    using assms(1) by (auto simp: wf_path_def list_all_iff simple_name_def)
  have sp: "split_char (CHR ''/'') (join ''/'' (tail p)) = tail p"
    by (rule split_join [OF assms(2) parts])
  have keep: "filter (\<lambda>x. x \<noteq> [] \<and> x \<noteq> ''.'') (tail p) = tail p"
    using assms(1) by (auto simp: wf_path_def list_all_iff simple_name_def filter_id_conv)
  have "root p = [] \<or> root p = ''/'' \<or> root p = ''//''"
    using assms(1) by (auto simp: wf_path_def)
  then have "Path (root p @ join ''/'' (tail p)) = \<lparr>root = root p, tail = tail p\<rparr>"
  proof (elim disjE)
    assume "root p = []"
    then show ?thesis
      using cr sp keep by (simp add: Path_def startswith_def)
  next
    assume "root p = ''/''"
    then show ?thesis
      using cr sp [unfolded cr] keep by (simp add: Path_def startswith_def)
  next
    assume "root p = ''//''"
    then show ?thesis
      using cr sp [unfolded cr] keep by (simp add: Path_def startswith_def)
  qed
  then show ?thesis
    using assms(2) by (simp add: path_str_def)
qed

text \<open>The string of a file of a directory is longer than that of the directory and of
  every directory above it, and it determines the name of the file.\<close>

lemma path_str_join_length:
  assumes "simple_name n" and "q \<in> set (path_ancestors p)"
  shows "length q < length (path_str (path_join p n))"
proof -
  from assms(2) obtain k where "k \<in> set [1..<Suc (length (tail p))]"
      and q: "q = path_str (p\<lparr>tail := take k (tail p)\<rparr>)"
    unfolding path_ancestors_def set_map by blast
  then have k: "1 \<le> k" "k \<le> length (tail p)"
    by (simp_all del: upt_Suc)
  then have ne: "tail p \<noteq> []"
    by auto
  have "take k (tail p) \<noteq> []"
    using k(1) ne by (cases "tail p"; cases k) auto
  then have "length q = length (root p) + length (join ''/'' (take k (tail p)))"
    by (simp add: q path_str_def)
  also have "\<dots> \<le> length (root p) + length (join ''/'' (tail p))"
    by (simp add: length_join_take)
  also have "\<dots> < length (path_str (path_join p n))"
    using ne by (simp add: path_join_simple [OF assms(1)] path_str_def join_snoc)
  finally show ?thesis .
qed

lemma path_str_join_not_ancestor:
  "simple_name n \<Longrightarrow> path_str (path_join p n) \<notin> set (path_ancestors p)"
  using path_str_join_length [of n "path_str (path_join p n)" p] by auto

lemma path_str_join_inject:
  assumes "simple_name a" and "simple_name b"
    and "path_str (path_join p a) = path_str (path_join p b)"
  shows "a = b"
proof (cases "tail p = []")
  case True
  then show ?thesis
    using assms by (simp add: path_join_simple path_str_def)
next
  case False
  then show ?thesis
    using assms by (simp add: path_join_simple path_str_def join_snoc)
qed

text \<open>A settled directory: \<^verbatim>\<open>mkdir\<close> changes nothing, and it stays settled when a file is
  written into it.\<close>

lemma mkdir_parents_settled: "settled fs p \<Longrightarrow> mkdir_parents fs p = Inr fs"
proof -
  assume s: "settled fs p"
  then have "dirs fs \<union> set (path_ancestors p) = dirs fs"
    by (auto simp: settled_def list_all_iff)
  then show ?thesis
    using s by (simp add: mkdir_parents_Inr settled_def list_all_iff)
qed

lemma settled_mkdir: "mkdir_parents fs p = Inr fs1 \<Longrightarrow> settled fs1 p"
  by (auto simp: mkdir_parents_Inr settled_def list_all_iff)

lemma settled_write:
  "settled fs p \<Longrightarrow> q \<notin> set (path_ancestors p) \<Longrightarrow>
     settled (fs\<lparr>files := (files fs)(q \<mapsto> d)\<rparr>) p"
  by (auto simp: settled_def list_all_iff)

subsection \<open>The batch command: the files of the output directory\<close>

lemma zfill_digits: "list_all is_digit (zfill k n)"
proof -
  have "is_digit (CHR ''0'')"
    by (simp add: is_digit_def digit_chars_def)
  then show ?thesis
    using str_nat_digits [of n] by (auto simp: zfill_def list_all_iff)
qed

lemma length_zfill: "k \<le> length (zfill k n)"
  by (simp add: zfill_def)

lemma nat_of_digits_zeros: "nat_of_digits (replicate m (CHR ''0'') @ ds) = nat_of_digits ds"
proof -
  have "foldl (\<lambda>acc c. 10 * acc + digit_val c) 0 (replicate m (CHR ''0'')) = 0"
    by (induction m) (simp_all add: digit_val_def)
  then show ?thesis by (simp add: nat_of_digits_def)
qed

lemma zfill_inject: "zfill k i = zfill k j \<Longrightarrow> i = j"
proof -
  assume "zfill k i = zfill k j"
  then have "nat_of_digits (zfill k i) = nat_of_digits (zfill k j)"
    by simp
  then show ?thesis
    by (simp add: zfill_def nat_of_digits_zeros nat_of_digits_str_nat)
qed

lemma digit_not_special:
  "is_digit c \<Longrightarrow> c \<noteq> CHR ''/'' \<and> c \<noteq> CHR ''.'' \<and> c \<noteq> CHR ''_''"
  by (auto simp: is_digit_def digit_chars_def)

lemma zfill_no_slash: "CHR ''/'' \<notin> set (zfill k n)"
  using zfill_digits [of k n] by (auto simp: list_all_iff dest: digit_not_special)

lemma replace_char_free: "a \<notin> set b \<Longrightarrow> a \<notin> set (replace_char a b s)"
  by (induction s) (auto simp: replace_char_def)

lemma simple_out_file_name:
  assumes "CHR ''/'' \<notin> set fmt"
  shows "simple_name (out_file_name i legend fmt)"
proof -
  have "CHR ''/'' \<notin> set (take 80 (replace_char (CHR ''/'') ''_''
                                     (replace_char (CHR '' '') ''_'' legend)))"
    using replace_char_free [of "CHR ''/''" "''_''"] by (auto dest: in_set_takeD)
  then have "CHR ''/'' \<notin> set (out_file_name i legend fmt)"
    using assms zfill_no_slash [of 4 i] by (simp add: out_file_name_def)
  moreover have "1 < length (out_file_name i legend fmt)"
    using length_zfill [of 4 i] by (simp add: out_file_name_def)
  ultimately show ?thesis
    by (auto simp: simple_name_def)
qed

lemma simple_panel_name: "CHR ''/'' \<notin> set fmt \<Longrightarrow> simple_name (panel_name k fmt)"
  using zfill_no_slash [of 3 k] by (auto simp: simple_name_def panel_name_def)

lemma simple_caption_name: "simple_name (caption_name k)"
  using zfill_no_slash [of 3 k] by (auto simp: simple_name_def caption_name_def)

lemma simple_report_name: "simple_name ''molpic_report.csv''"
  by (simp add: simple_name_def)

lemma panel_name_inject: "panel_name i fmt = panel_name j fmt \<Longrightarrow> i = j"
  by (auto simp: panel_name_def dest: zfill_inject)

lemma panel_name_not_caption: "panel_name i fmt \<noteq> caption_name j"
proof
  assume "panel_name i fmt = caption_name j"
  then have "zfill 3 i @ CHR ''.'' # fmt = zfill 3 j @ CHR ''_'' # ''caption.txt''"
    by (simp add: panel_name_def caption_name_def)
  then have "dropWhile is_digit (zfill 3 i @ CHR ''.'' # fmt) =
      dropWhile is_digit (zfill 3 j @ CHR ''_'' # ''caption.txt'')"
    by simp
  moreover have "\<not> is_digit (CHR ''.'')" "\<not> is_digit (CHR ''_'')"
    using digit_not_special by blast+
  ultimately show False
    by (simp add: dropWhile_digits zfill_digits)
qed

text \<open>The renderers and the caption writer on a file of a settled directory: no exception
  leaves them, and at most that file is touched.\<close>

lemma Path_of_file:
  assumes "wf_path p" and "simple_name n"
  shows "Path (path_str (path_join p n)) = path_join p n"
    and "parent (Path (path_str (path_join p n))) = p"
proof -
  show 1: "Path (path_str (path_join p n)) = path_join p n"
    using assms by (intro Path_path_str wf_path_join) (simp_all add: path_join_simple)
  show "parent (Path (path_str (path_join p n))) = p"
    unfolding 1 by (rule parent_path_join [OF assms(2)])
qed

lemma render_molecule_in_dir:
  assumes "settled fs p" and "wf_path p" and "simple_name n"
  shows "\<exists>r fs'. render_molecule tk fs smiles (path_str (path_join p n)) sz legend tr no_h dpi
                   = Inr (r, fs')
           \<and> (if rr_ok r
               then \<exists>d. fs' = fs\<lparr>files := (files fs)(path_str (path_join p n) \<mapsto> d)\<rparr>
               else fs' = fs)"
proof -
  have mk: "mkdir_parents fs (parent (Path (path_str (path_join p n)))) = Inr fs"
    using assms by (simp add: Path_of_file parent_path_join mkdir_parents_settled)
  show ?thesis
  proof (cases "render_molecule tk fs smiles (path_str (path_join p n)) sz legend tr no_h dpi")
    case (Inl e)
    then show ?thesis using render_molecule_Inl [OF Inl] mk by simp
  next
    case (Inr x)
    obtain r fs' where x: "x = (r, fs')" by (cases x)
    show ?thesis
      using render_molecule_effect [OF Inr [unfolded x]] mk assms
      by (auto simp: Inr x Path_of_file split: if_splits)
  qed
qed

lemma render_grid_in_dir:
  assumes "settled fs p" and "wf_path p" and "simple_name n"
  shows "\<exists>r fs'. render_grid tk ff fs smiles_list (path_str (path_join p n)) legends grid sz tr
                   no_h dpi title = Inr (r, fs')
           \<and> (if rr_ok r
               then \<exists>d. fs' = fs\<lparr>files := (files fs)(path_str (path_join p n) \<mapsto> d)\<rparr>
               else fs' = fs)"
proof -
  have mk: "mkdir_parents fs (parent (Path (path_str (path_join p n)))) = Inr fs"
    using assms by (simp add: Path_of_file parent_path_join mkdir_parents_settled)
  show ?thesis
  proof (cases "render_grid tk ff fs smiles_list (path_str (path_join p n)) legends grid sz tr
                   no_h dpi title")
    case (Inl e)
    then show ?thesis using render_grid_Inl [OF Inl] mk by simp
  next
    case (Inr x)
    obtain r fs' where x: "x = (r, fs')" by (cases x)
    show ?thesis
      using render_grid_effect [OF Inr [unfolded x]] mk assms
      by (auto simp: Inr x Path_of_file split: if_splits)
  qed
qed

lemma write_caption_in_dir:
  assumes "settled fs p" and "wf_path p" and "simple_name n"
    and "path_str (path_join p n) \<notin> dirs fs"
  shows "\<exists>d. write_caption fs (path_str (path_join p n)) title legends =
           Inr (fs\<lparr>files := (files fs)(path_str (path_join p n) \<mapsto> d)\<rparr>)"
  using assms
  by (simp add: write_caption_def Let_def Path_of_file parent_path_join mkdir_parents_settled
      write_file_def) blast

lemma settled_file:
  "settled fs p \<Longrightarrow> simple_name n \<Longrightarrow>
     settled (fs\<lparr>files := (files fs)(path_str (path_join p n) \<mapsto> d)\<rparr>) p"
  by (intro settled_write path_str_join_not_ancestor)

subsection \<open>The batch command: the report\<close>

text \<open>One pass of the loop over the rows, in a settled output directory.\<close>

lemma batch_row_step:
  assumes st: "settled fs p" and wf: "wf_path p" and fmt: "CHR ''/'' \<notin> set fmt"
  shows "\<exists>fs' e its.
           batch_row tk gc p sc nc hs hn fmt no_h (fs, rep, items) (i, row) =
             Inr (fs', rep @ [e], items @ its)
           \<and> (settled fs' p \<and> dirs fs' = dirs fs)
           \<and> length its = (if map_of e ''ok'' = Some (CBool True) then 1 else 0)
           \<and> entry_of_row tk gc p sc nc hs hn fmt no_h i row e"
proof -
  define rs where "rs = (if hs then strip (row_get row sc) else [])"
  define rn where "rn = (if hn then strip (row_get row nc) else [])"
  define legend where "legend = (if rn \<noteq> [] then rn else rs)"
  define name where "name = out_file_name i legend fmt"
  have name: "simple_name name"
    unfolding name_def by (rule simple_out_file_name [OF fmt])
  have rendered: "\<exists>fs' e its.
           (case render_molecule tk fs smiles (path_str (path_join p name)) (900, 700) legend True
                   no_h 300 of
              Inl e \<Rightarrow> Inl (Raised e)
            | Inr (rr2, fs') \<Rightarrow>
                Inr (fs', rep @ [full_entry i query legend rr2 source cid],
                     if rr_ok rr2 then items @ [(legend, smiles, path_str (path_join p name))]
                     else items)) = Inr (fs', rep @ [e], items @ its)
           \<and> (settled fs' p \<and> dirs fs' = dirs fs)
           \<and> length its = (if map_of e ''ok'' = Some (CBool True) then 1 else 0)
           \<and> (\<exists>fsa r fsb.
                  render_molecule tk fsa smiles (path_str (path_join p name)) (900, 700) legend
                    True no_h 300 = Inr (r, fsb)
                  \<and> e = full_entry i query legend r source cid)"
    for smiles query source cid
  proof -
    obtain r fs' where r:
        "render_molecule tk fs smiles (path_str (path_join p name)) (900, 700) legend True
           no_h 300 = Inr (r, fs')"
        "if rr_ok r
         then \<exists>d. fs' = fs\<lparr>files := (files fs)(path_str (path_join p name) \<mapsto> d)\<rparr>
         else fs' = fs"
      using render_molecule_in_dir [OF st wf name] by blast
    have s': "settled fs' p \<and> dirs fs' = dirs fs"
      using r(2) st name by (auto simp: settled_file split: if_splits)
    show ?thesis
    proof (intro exI conjI)
      show "(case render_molecule tk fs smiles (path_str (path_join p name)) (900, 700) legend
                    True no_h 300 of
               Inl e \<Rightarrow> Inl (Raised e)
             | Inr (rr2, fs') \<Rightarrow>
                 Inr (fs', rep @ [full_entry i query legend rr2 source cid],
                      if rr_ok rr2 then items @ [(legend, smiles, path_str (path_join p name))]
                      else items)) =
            Inr (fs', rep @ [full_entry i query legend r source cid],
                 items @ (if rr_ok r then [(legend, smiles, path_str (path_join p name))] else []))"
        by (simp add: r(1))
      show "settled fs' p" and "dirs fs' = dirs fs"
        using s' by simp_all
      show "length (if rr_ok r then [(legend, smiles, path_str (path_join p name))] else []) =
          (if map_of (full_entry i query legend r source cid) ''ok'' = Some (CBool True)
           then 1 else 0)"
        by (simp add: full_entry_def)
      show "render_molecule tk fs smiles (path_str (path_join p name)) (900, 700) legend True
              no_h 300 = Inr (r, fs')"
        by (rule r(1))
      show "full_entry i query legend r source cid = full_entry i query legend r source cid"
        by (rule refl)
    qed
  qed
  consider (empty) "rs = []" "rn = []" | (smiles) "rs \<noteq> []" | (name) "rs = []" "rn \<noteq> []"
    by blast
  then show ?thesis
  proof cases
    case empty
    show ?thesis
    proof (intro exI [of _ fs] exI [of _ "short_entry i ''empty''"] exI [of _ "[]"] conjI)
      show "batch_row tk gc p sc nc hs hn fmt no_h (fs, rep, items) (i, row) =
          Inr (fs, rep @ [short_entry i ''empty''], items @ [])"
        using empty unfolding rs_def rn_def by (simp add: batch_row_def)
      show "length [] =
          (if map_of (short_entry i ''empty'') ''ok'' = Some (CBool True) then 1 else 0)"
        by (simp add: short_entry_def)
      show "entry_of_row tk gc p sc nc hs hn fmt no_h i row (short_entry i ''empty'')"
        using empty unfolding rs_def rn_def by (simp add: entry_of_row_def)
    qed (simp_all add: st)
  next
    case smiles
    have eq: "batch_row tk gc p sc nc hs hn fmt no_h (fs, rep, items) (i, row) =
        (case render_molecule tk fs rs (path_str (path_join p name)) (900, 700) legend True
                no_h 300 of
           Inl e \<Rightarrow> Inl (Raised e)
         | Inr (rr2, fs') \<Rightarrow>
             Inr (fs', rep @ [full_entry i rs legend rr2 ''input_smiles'' None],
                  if rr_ok rr2 then items @ [(legend, rs, path_str (path_join p name))]
                  else items))"
      using smiles unfolding rs_def rn_def legend_def name_def
      by (simp add: batch_row_def Let_def cong: sum.case_cong prod.case_cong if_cong)
    have spec: "entry_of_row tk gc p sc nc hs hn fmt no_h i row e"
      if "\<exists>fsa r fsb.
            render_molecule tk fsa rs (path_str (path_join p name)) (900, 700) legend True no_h
              300 = Inr (r, fsb)
            \<and> e = full_entry i rs legend r ''input_smiles'' None" for e
      using that smiles unfolding rs_def rn_def legend_def name_def
      by (simp add: entry_of_row_def Let_def)
    show ?thesis
      unfolding eq using rendered [where smiles = rs and query = rs and source = "''input_smiles''" and cid = None] spec by blast
  next
    case name
    obtain rr where rr: "resolve_name_to_smiles gc rn 20 = Inr rr"
      using resolve_returns by blast
    show ?thesis
    proof (cases "falsy (res_smiles rr)")
      case True
      show ?thesis
      proof (intro exI [of _ fs] exI [of _ "short_entry i (res_message rr)"] exI [of _ "[]"]
          conjI)
        show "batch_row tk gc p sc nc hs hn fmt no_h (fs, rep, items) (i, row) =
            Inr (fs, rep @ [short_entry i (res_message rr)], items @ [])"
          using name True rr unfolding rs_def rn_def
          by (auto simp: batch_row_def Let_def falsy_def split: option.splits)
        show "length [] =
            (if map_of (short_entry i (res_message rr)) ''ok'' = Some (CBool True) then 1 else 0)"
          by (simp add: short_entry_def)
        show "entry_of_row tk gc p sc nc hs hn fmt no_h i row (short_entry i (res_message rr))"
          using name True rr unfolding rs_def rn_def
          by (simp add: entry_of_row_def Let_def)
      qed (simp_all add: st)
    next
      case False
      then obtain sm where sm: "res_smiles rr = Some sm" "sm \<noteq> []"
        by (auto simp: falsy_def split: option.splits)
      have leg: "legend = rn"
        using name by (simp add: legend_def)
      have eq: "batch_row tk gc p sc nc hs hn fmt no_h (fs, rep, items) (i, row) =
          (case render_molecule tk fs sm (path_str (path_join p name)) (900, 700) legend True
                  no_h 300 of
             Inl e \<Rightarrow> Inl (Raised e)
           | Inr (rr2, fs') \<Rightarrow>
               Inr (fs', rep @ [full_entry i rn legend rr2 (res_source rr) (res_pubchem_cid rr)],
                    if rr_ok rr2 then items @ [(legend, sm, path_str (path_join p name))]
                    else items))"
        using name sm rr unfolding rs_def rn_def legend_def name_def
        by (simp add: batch_row_def Let_def cong: sum.case_cong prod.case_cong if_cong)
      have spec: "entry_of_row tk gc p sc nc hs hn fmt no_h i row e"
        if "\<exists>fsa r fsb.
              render_molecule tk fsa sm (path_str (path_join p name)) (900, 700) legend True no_h
                300 = Inr (r, fsb)
              \<and> e = full_entry i rn legend r (res_source rr) (res_pubchem_cid rr)" for e
        using that name sm rr False unfolding rs_def rn_def legend_def name_def
        by (simp add: entry_of_row_def Let_def)
      show ?thesis
        unfolding eq
        using rendered [where smiles = sm and query = rn and source = "res_source rr"
            and cid = "res_pubchem_cid rr"] spec
        by blast
    qed
  qed
qed

text \<open>The loop over the rows keeps an invariant of the file system, appends one entry for
  each row, in order, and one item for each entry that is a success.\<close>

lemma batch_rows_loop:
  assumes step: "\<And>fs rep items i row. I fs \<Longrightarrow>
      \<exists>fs' e its. body (fs, rep, items) (i, row) = Inr (fs', rep @ [e], items @ its)
         \<and> I fs' \<and> length its = (if okp e then 1 else 0) \<and> Q i row e"
    and inv: "I fs"
  shows "\<exists>fs' rep' its.
           batch_rows body (fs, rep, items) (enumerate k rows) = Inr (fs', rep @ rep', items @ its)
           \<and> I fs' \<and> length rep' = length rows \<and> length its = length (filter okp rep')
           \<and> (\<forall>j<length rows. Q (k + j) (rows ! j) (rep' ! j))"
  using inv
proof (induction rows arbitrary: fs rep items k)
  case Nil
  then show ?case by simp
next
  case (Cons row rows)
  obtain fs1 e its1 where 1:
      "body (fs, rep, items) (k, row) = Inr (fs1, rep @ [e], items @ its1)" "I fs1"
      "length its1 = (if okp e then 1 else 0)" "Q k row e"
    using step [OF Cons.prems, of rep items k row] by blast
  obtain fs' rep' its where 2:
      "batch_rows body (fs1, rep @ [e], items @ its1) (enumerate (Suc k) rows) =
         Inr (fs', (rep @ [e]) @ rep', (items @ its1) @ its)"
      "I fs'" "length rep' = length rows" "length its = length (filter okp rep')"
      "\<forall>j<length rows. Q (Suc k + j) (rows ! j) (rep' ! j)"
    using Cons.IH [OF 1(2), of "rep @ [e]" "items @ its1" "Suc k"] by blast
  have q: "\<forall>j<length (row # rows). Q (k + j) ((row # rows) ! j) ((e # rep') ! j)"
  proof (intro allI impI)
    fix j assume "j < length (row # rows)"
    then show "Q (k + j) ((row # rows) ! j) ((e # rep') ! j)"
      using 1(4) 2(5) by (cases j) auto
  qed
  show ?case
  proof (intro exI [of _ fs'] exI [of _ "e # rep'"] exI [of _ "its1 @ its"] conjI)
    show "batch_rows body (fs, rep, items) (enumerate k (row # rows)) =
        Inr (fs', rep @ e # rep', items @ its1 @ its)"
      using 1(1) 2(1) by simp
    show "length (its1 @ its) = length (filter okp (e # rep'))"
      using 1(3) 2(4) by simp
  qed (use 2 q in simp_all)
qed

lemma batch_rows_entries:
  assumes "settled fs1 p" and "wf_path p" and "CHR ''/'' \<notin> set fmt"
  shows "\<exists>fs2 report its.
           batch_rows (batch_row tk gc p sc nc hs hn fmt no_h) (fs1, [], []) (enumerate 0 rows) =
             Inr (fs2, report, its)
           \<and> (settled fs2 p \<and> dirs fs2 = dirs fs1) \<and> length report = length rows
           \<and> length its = length (filter (\<lambda>e. map_of e ''ok'' = Some (CBool True)) report)
           \<and> (\<forall>j<length rows. entry_of_row tk gc p sc nc hs hn fmt no_h j (rows ! j) (report ! j))"
proof -
  have "\<exists>fs' rep' its.
           batch_rows (batch_row tk gc p sc nc hs hn fmt no_h) (fs1, [], []) (enumerate 0 rows) =
             Inr (fs', [] @ rep', [] @ its)
           \<and> (settled fs' p \<and> dirs fs' = dirs fs1) \<and> length rep' = length rows
           \<and> length its = length (filter (\<lambda>e. map_of e ''ok'' = Some (CBool True)) rep')
           \<and> (\<forall>j<length rows.
                 entry_of_row tk gc p sc nc hs hn fmt no_h (0 + j) (rows ! j) (rep' ! j))"
  proof (rule batch_rows_loop
      [where I = "\<lambda>fs. settled fs p \<and> dirs fs = dirs fs1"
         and okp = "\<lambda>e. map_of e ''ok'' = Some (CBool True)"
         and Q = "entry_of_row tk gc p sc nc hs hn fmt no_h"])
    show "settled fs1 p \<and> dirs fs1 = dirs fs1"
      using assms(1) by simp
  next
    fix fs rep items i row
    assume "settled fs p \<and> dirs fs = dirs fs1"
    then show "\<exists>fs' e its.
        batch_row tk gc p sc nc hs hn fmt no_h (fs, rep, items) (i, row) =
          Inr (fs', rep @ [e], items @ its)
        \<and> (settled fs' p \<and> dirs fs' = dirs fs1)
        \<and> length its = (if map_of e ''ok'' = Some (CBool True) then 1 else 0)
        \<and> entry_of_row tk gc p sc nc hs hn fmt no_h i row e"
      using batch_row_step [OF _ assms(2,3), of fs tk gc sc nc hs hn no_h rep items i row]
      by auto
  qed
  then show ?thesis by simp
qed

text \<open>The table that \<^verbatim>\<open>to_csv\<close> writes.\<close>

lemma DataFrame_Table:
  "\<exists>cols cells. DataFrame report = Table cols cells
     \<and> distinct cols \<and> set cols = (\<Union>e\<in>set report. fst ` set e)
     \<and> length cells = length report
     \<and> (\<forall>i<length report.
           cells ! i = map (\<lambda>c. case map_of (report ! i) c of Some v \<Rightarrow> v | None \<Rightarrow> CNone) cols)"
  by (auto simp: DataFrame_def DataFrame_columns_def Let_def)

text \<open>What a run that reaches the panels has done before: the output directory is settled,
  and the grid is the parsed one.\<close>

lemma batch_report_Inr:
  assumes run: "batch_report tk gc read_csv fs input_file sc nc out_dir fmt no_h panel_grid =
             Inr (fs3, g, items)"
    and fmt: "CHR ''/'' \<notin> set fmt"
  shows "settled fs3 (Path out_dir) \<and> parse_grid panel_grid = Inr g"
proof -
  from run obtain df fs1 where df: "read_csv input_file = Inr df"
      and mk: "mkdir_parents fs (Path out_dir) = Inr fs1"
    by (auto simp: batch_report_def Let_def split: sum.splits)
  obtain fs2 report its where rows:
      "batch_rows (batch_row tk gc (Path out_dir) sc nc (sc \<in> set (df_columns df))
           (nc \<in> set (df_columns df)) fmt no_h) (fs1, [], []) (enumerate 0 (df_rows df)) =
         Inr (fs2, report, its)"
      "settled fs2 (Path out_dir) \<and> dirs fs2 = dirs fs1"
    using batch_rows_entries [OF settled_mkdir [OF mk] wf_path_Path fmt] by blast
  from run have g: "parse_grid panel_grid = Inr g"
    and wr: "write_file fs2 (path_str (path_join (Path out_dir) ''molpic_report.csv''))
               (DataFrame report) = Inr fs3"
    by (auto simp: batch_report_def Let_def df mk rows(1) split: sum.splits if_splits)
  have "settled fs3 (Path out_dir)"
    using wr rows(2) settled_file [OF _ simple_report_name]
    by (auto simp: write_file_Inr)
  then show ?thesis using g by simp
qed

text \<open>
  Claim C8, as the code has it. Take a run of \<^verbatim>\<open>batch\<close> whose table is read and has at
  least one of the two columns, whose panel grid parses, in which no regular file stands
  where the output directory or a directory above it has to be, in which the path of the
  report is not a directory, and whose format has no slash. Then no exception ends it
  before the report is written, and \<^verbatim>\<open>report_rows\<close> has exactly one entry for each row
  of the table, in the order of the rows:
  \<^item> for a row whose structure string and name are both empty, the three fields
    \<^verbatim>\<open>row\<close>, \<^verbatim>\<open>ok = False\<close> and \<^verbatim>\<open>message = "empty"\<close>;
  \<^item> for a row with a structure string, the eight fields \<^verbatim>\<open>row\<close>, \<^verbatim>\<open>query\<close>,
    \<^verbatim>\<open>legend\<close>, \<^verbatim>\<open>ok\<close>, \<^verbatim>\<open>out\<close>, \<^verbatim>\<open>source\<close>, \<^verbatim>\<open>cid\<close> and \<^verbatim>\<open>message\<close>, made from the
    result of rendering that string to the file of the row;
  \<^item> for a row with a name only, the three fields with the message of the resolver when
    the resolver gives no structure, and else the eight fields made from the result of
    rendering the resolved structure, with the source and the identifier of the resolver.

  The number of rendered items is the number of entries whose \<^verbatim>\<open>ok\<close> is true. The file of
  the report holds the table of these entries: its columns are the fields that occur in
  some entry, each once, and the line of an entry has the entry's value in the column of a
  field that it has, and no value in the others.
\<close>

theorem batch_report_entries:
  assumes read: "read_csv input_file = Inr df"
    and cols: "smiles_col \<in> set (df_columns df) \<or> name_col \<in> set (df_columns df)"
    and grid: "parse_grid panel_grid = Inr g"
    and dir: "\<forall>q\<in>set (path_ancestors (Path out_dir)). files fs q = None"
    and rep: "path_str (path_join (Path out_dir) ''molpic_report.csv'') \<notin> dirs fs"
    and fmt: "CHR ''/'' \<notin> set fmt"
  shows "\<exists>fs' items report columns cells.
      batch_report tk gc read_csv fs input_file smiles_col name_col out_dir fmt no_h panel_grid
        = Inr (fs', g, items)
    \<and> length report = length (df_rows df)
    \<and> length items = length (filter (\<lambda>e. map_of e ''ok'' = Some (CBool True)) report)
    \<and> (\<forall>i<length (df_rows df).
          let rs = (if smiles_col \<in> set (df_columns df)
                    then strip (row_get (df_rows df ! i) smiles_col) else []);
              rn = (if name_col \<in> set (df_columns df)
                    then strip (row_get (df_rows df ! i) name_col) else []);
              legend = (if rn \<noteq> [] then rn else rs);
              out = path_str (path_join (Path out_dir) (out_file_name i legend fmt))
          in (rs = [] \<and> rn = [] \<longrightarrow>
                report ! i = [(''row'', CInt (int i)), (''ok'', CBool False),
                              (''message'', CStr ''empty'')])
             \<and> (rs \<noteq> [] \<longrightarrow>
                  (\<exists>fsa r fsb.
                      render_molecule tk fsa rs out (900, 700) legend True no_h 300 = Inr (r, fsb)
                      \<and> report ! i =
                          [(''row'', CInt (int i)), (''query'', CStr rs), (''legend'', CStr legend),
                           (''ok'', CBool (rr_ok r)),
                           (''out'', (case rr_out_path r of None \<Rightarrow> CNone | Some p \<Rightarrow> CStr p)),
                           (''source'', CStr ''input_smiles''),
                           (''cid'', CNone),
                           (''message'', CStr (rr_message r))]))
             \<and> (rs = [] \<and> rn \<noteq> [] \<longrightarrow>
                  (\<exists>rr. resolve_name_to_smiles gc rn 20 = Inr rr
                     \<and> (falsy (res_smiles rr) \<longrightarrow>
                          report ! i = [(''row'', CInt (int i)), (''ok'', CBool False),
                                        (''message'', CStr (res_message rr))])
                     \<and> (\<not> falsy (res_smiles rr) \<longrightarrow>
                          (\<exists>fsa r fsb.
                              render_molecule tk fsa (the (res_smiles rr)) out (900, 700) legend
                                True no_h 300 = Inr (r, fsb)
                              \<and> report ! i =
                                  [(''row'', CInt (int i)), (''query'', CStr rn),
                                   (''legend'', CStr legend), (''ok'', CBool (rr_ok r)),
                                   (''out'',
                                    (case rr_out_path r of None \<Rightarrow> CNone | Some p \<Rightarrow> CStr p)),
                                   (''source'', CStr (res_source rr)),
                                   (''cid'',
                                    (case res_pubchem_cid rr of None \<Rightarrow> CNone
                                     | Some n \<Rightarrow> CInt n)),
                                   (''message'', CStr (rr_message r))])))))
    \<and> files fs' (path_str (path_join (Path out_dir) ''molpic_report.csv'')) =
        Some (Table columns cells)
    \<and> distinct columns \<and> set columns = (\<Union>e\<in>set report. fst ` set e)
    \<and> length cells = length report
    \<and> (\<forall>i<length report.
          cells ! i =
            map (\<lambda>c. case map_of (report ! i) c of Some v \<Rightarrow> v | None \<Rightarrow> CNone) columns)"
proof -
  define p where "p = Path out_dir"
  define fs1 where "fs1 = fs\<lparr>dirs := dirs fs \<union> set (path_ancestors p)\<rparr>"
  have mk: "mkdir_parents fs p = Inr fs1"
    using dir by (simp add: mkdir_parents_Inr fs1_def p_def)
  have wf: "wf_path p"
    unfolding p_def by (rule wf_path_Path)
  obtain fs2 report its where rows:
      "batch_rows (batch_row tk gc p smiles_col name_col (smiles_col \<in> set (df_columns df))
           (name_col \<in> set (df_columns df)) fmt no_h) (fs1, [], []) (enumerate 0 (df_rows df)) =
         Inr (fs2, report, its)"
      "settled fs2 p \<and> dirs fs2 = dirs fs1"
      "length report = length (df_rows df)"
      "length its = length (filter (\<lambda>e. map_of e ''ok'' = Some (CBool True)) report)"
      "\<forall>j<length (df_rows df).
         entry_of_row tk gc p smiles_col name_col (smiles_col \<in> set (df_columns df))
           (name_col \<in> set (df_columns df)) fmt no_h j (df_rows df ! j) (report ! j)"
    using batch_rows_entries [OF settled_mkdir [OF mk] wf fmt] by blast
  define path where "path = path_str (path_join p ''molpic_report.csv'')"
  define fs3 where "fs3 = fs2\<lparr>files := (files fs2)(path \<mapsto> DataFrame report)\<rparr>"
  have "path \<notin> set (path_ancestors p)"
    unfolding path_def by (rule path_str_join_not_ancestor [OF simple_report_name])
  then have "path \<notin> dirs fs2"
    using rep rows(2) by (simp add: fs1_def path_def p_def)
  then have wr: "write_file fs2 path (DataFrame report) = Inr fs3"
    by (simp add: write_file_Inr fs3_def)
  have run: "batch_report tk gc read_csv fs input_file smiles_col name_col out_dir fmt no_h
      panel_grid = Inr (fs3, g, its)"
    using cols
    by (simp add: batch_report_def Let_def read mk [unfolded p_def] grid rows(1) [unfolded p_def]
        wr [unfolded path_def p_def])
  obtain columns cells where tab: "DataFrame report = Table columns cells"
      "distinct columns" "set columns = (\<Union>e\<in>set report. fst ` set e)"
      "length cells = length report"
      "\<forall>i<length report.
          cells ! i =
            map (\<lambda>c. case map_of (report ! i) c of Some v \<Rightarrow> v | None \<Rightarrow> CNone) columns"
    using DataFrame_Table [of report] by blast
  have written: "files fs3 (path_str (path_join (Path out_dir) ''molpic_report.csv'')) =
      Some (Table columns cells)"
    by (simp add: fs3_def path_def p_def tab(1))
  have spec: "\<forall>i<length (df_rows df).
          let rs = (if smiles_col \<in> set (df_columns df)
                    then strip (row_get (df_rows df ! i) smiles_col) else []);
              rn = (if name_col \<in> set (df_columns df)
                    then strip (row_get (df_rows df ! i) name_col) else []);
              legend = (if rn \<noteq> [] then rn else rs);
              out = path_str (path_join (Path out_dir) (out_file_name i legend fmt))
          in (rs = [] \<and> rn = [] \<longrightarrow>
                report ! i = [(''row'', CInt (int i)), (''ok'', CBool False),
                              (''message'', CStr ''empty'')])
             \<and> (rs \<noteq> [] \<longrightarrow>
                  (\<exists>fsa r fsb.
                      render_molecule tk fsa rs out (900, 700) legend True no_h 300 = Inr (r, fsb)
                      \<and> report ! i =
                          [(''row'', CInt (int i)), (''query'', CStr rs), (''legend'', CStr legend),
                           (''ok'', CBool (rr_ok r)),
                           (''out'', (case rr_out_path r of None \<Rightarrow> CNone | Some p \<Rightarrow> CStr p)),
                           (''source'', CStr ''input_smiles''),
                           (''cid'', CNone),
                           (''message'', CStr (rr_message r))]))
             \<and> (rs = [] \<and> rn \<noteq> [] \<longrightarrow>
                  (\<exists>rr. resolve_name_to_smiles gc rn 20 = Inr rr
                     \<and> (falsy (res_smiles rr) \<longrightarrow>
                          report ! i = [(''row'', CInt (int i)), (''ok'', CBool False),
                                        (''message'', CStr (res_message rr))])
                     \<and> (\<not> falsy (res_smiles rr) \<longrightarrow>
                          (\<exists>fsa r fsb.
                              render_molecule tk fsa (the (res_smiles rr)) out (900, 700) legend
                                True no_h 300 = Inr (r, fsb)
                              \<and> report ! i =
                                  [(''row'', CInt (int i)), (''query'', CStr rn),
                                   (''legend'', CStr legend), (''ok'', CBool (rr_ok r)),
                                   (''out'',
                                    (case rr_out_path r of None \<Rightarrow> CNone | Some p \<Rightarrow> CStr p)),
                                   (''source'', CStr (res_source rr)),
                                   (''cid'',
                                    (case res_pubchem_cid rr of None \<Rightarrow> CNone
                                     | Some n \<Rightarrow> CInt n)),
                                   (''message'', CStr (rr_message r))]))))"
    using rows(5)
    unfolding entry_of_row_def short_entry_def full_entry_def Let_def p_def option.case
    by blast
  show ?thesis
    by (intro exI [of _ fs3] exI [of _ its] exI [of _ report] exI [of _ columns]
        exI [of _ cells] conjI)
      (rule run rows(3) rows(4) spec written tab(2) tab(3) tab(4) tab(5))+
qed

theorem batch_report_entries_witness:
  "\<not> isl (batch_report demo_toolkit demo_lookup demo_read_csv empty_fs ''in.csv'' ''smiles''
         ''name'' ''out'' ''svg'' False ''2x3'')
   \<and> files (fst (projr (batch_report demo_toolkit demo_lookup demo_read_csv empty_fs ''in.csv''
         ''smiles'' ''name'' ''out'' ''svg'' False ''2x3''))) ''out/molpic_report.csv'' =
       Some (Table [''row'', ''query'', ''legend'', ''ok'', ''out'', ''source'', ''cid'', ''message'']
               [[CInt 0, CStr ''CCO'', CStr ''ethanol'', CBool True, CStr ''out/0000_ethanol.svg'',
                 CStr ''input_smiles'', CNone, CStr ''OK''],
                [CInt 1, CNone, CNone, CBool False, CNone, CNone, CNone, CStr ''empty''],
                [CInt 2, CStr ''C?'', CStr ''bad'', CBool False, CNone, CStr ''input_smiles'',
                 CNone, CStr ''RDKit could not parse the SMILES.'']])
   \<and> length (snd (snd (projr (batch_report demo_toolkit demo_lookup demo_read_csv empty_fs
         ''in.csv'' ''smiles'' ''name'' ''out'' ''svg'' False ''2x3'')))) = 1"
proof -
  have read: "demo_read_csv ''in.csv'' =
      Inr \<lparr>df_columns = [''smiles'', ''name''],
           df_rows = [[(''smiles'', ''CCO''), (''name'', ''ethanol'')],
                      [(''smiles'', ''  ''), (''name'', '' '')],
                      [(''smiles'', ''C?''), (''name'', ''bad'')]]\<rparr>"
    by (simp add: demo_read_csv_def)
  have cols: "''smiles'' \<in> set (df_columns \<lparr>df_columns = [''smiles'', ''name''],
           df_rows = [[(''smiles'', ''CCO''), (''name'', ''ethanol'')],
                      [(''smiles'', ''  ''), (''name'', '' '')],
                      [(''smiles'', ''C?''), (''name'', ''bad'')]]\<rparr>)
        \<or> ''name'' \<in> set (df_columns \<lparr>df_columns = [''smiles'', ''name''],
           df_rows = [[(''smiles'', ''CCO''), (''name'', ''ethanol'')],
                      [(''smiles'', ''  ''), (''name'', '' '')],
                      [(''smiles'', ''C?''), (''name'', ''bad'')]]\<rparr>)"
    by simp
  have grid: "parse_grid ''2x3'' = Inr (2, 3)"
    by code_simp
  have anc: "path_ancestors (Path ''out'') = [''out'']"
    by code_simp
  have dir: "\<forall>q\<in>set (path_ancestors (Path ''out'')). files empty_fs q = None"
    by (simp add: anc empty_fs_def)
  have rep: "path_str (path_join (Path ''out'') ''molpic_report.csv'') \<notin> dirs empty_fs"
    by (simp add: empty_fs_def)
  have fmt: "CHR ''/'' \<notin> set ''svg''"
    by simp
  have a: "\<not> isl (batch_report demo_toolkit demo_lookup demo_read_csv empty_fs ''in.csv''
      ''smiles'' ''name'' ''out'' ''svg'' False ''2x3'')"
    using batch_report_entries [where read_csv = demo_read_csv and input_file = "''in.csv''"
        and smiles_col = "''smiles''" and name_col = "''name''" and panel_grid = "''2x3''"
        and g = "(2, 3)" and out_dir = "''out''" and fs = empty_fs and fmt = "''svg''"
        and tk = demo_toolkit and gc = demo_lookup and no_h = False,
        OF read cols grid dir rep fmt]
    by auto
  have b: "files (fst (projr (batch_report demo_toolkit demo_lookup demo_read_csv empty_fs
         ''in.csv'' ''smiles'' ''name'' ''out'' ''svg'' False ''2x3''))) ''out/molpic_report.csv'' =
       Some (Table [''row'', ''query'', ''legend'', ''ok'', ''out'', ''source'', ''cid'', ''message'']
               [[CInt 0, CStr ''CCO'', CStr ''ethanol'', CBool True, CStr ''out/0000_ethanol.svg'',
                 CStr ''input_smiles'', CNone, CStr ''OK''],
                [CInt 1, CNone, CNone, CBool False, CNone, CNone, CNone, CStr ''empty''],
                [CInt 2, CStr ''C?'', CStr ''bad'', CBool False, CNone, CStr ''input_smiles'',
                 CNone, CStr ''RDKit could not parse the SMILES.'']])"
    by code_simp
  have c: "length (snd (snd (projr (batch_report demo_toolkit demo_lookup demo_read_csv empty_fs
         ''in.csv'' ''smiles'' ''name'' ''out'' ''svg'' False ''2x3'')))) = 1"
    by code_simp
  show ?thesis
    using a b c by (intro conjI)
qed

text \<open>
  Claim C8 does not hold of every entry: for a table whose only row is blank, the entry
  has three fields, and the report that is written has no column for the query, the
  legend, the output path, the source or the identifier.
\<close>

theorem batch_report_short_entry_counterexample:
  "files (fst (projr (batch_report demo_toolkit demo_lookup demo_read_csv empty_fs ''blank.csv''
      ''smiles'' ''name'' ''out'' ''svg'' False ''2x3''))) ''out/molpic_report.csv'' =
     Some (Table [''row'', ''ok'', ''message''] [[CInt 0, CBool False, CStr ''empty'']])
   \<and> ''query'' \<notin> set [''row'', ''ok'', ''message'']"
  by code_simp

end
